theory Spec2Isabelle
  imports Main "HOL-Library.Char_ord" "HOL-Library.List_Lexorder" "HOL-Library.Sublist"
begin

section \<open>gocov: the coverage driver of \<^verbatim>\<open>gocov/main.go\<close>\<close>

text \<open>
  The development follows \<^verbatim>\<open>src/gocov/main.go\<close>. Go strings are byte sequences and are
  modelled as \<^typ>\<open>string\<close>; a slice of strings is a list. Calls into Go's standard
  library are modelled by their documented behaviour and are marked as such.
\<close>

subsection \<open>The environment list: \<^verbatim>\<open>putenv\<close> (lines 51-59)\<close>

text \<open>
  \<^verbatim>\<open>strings.HasPrefix(s, prefix)\<close> of Go's library:
  \<^verbatim>\<open>len(s) >= len(prefix) && s[0:len(prefix)] == prefix\<close>.
\<close>

definition HasPrefix :: "string \<Rightarrow> string \<Rightarrow> bool" where
  "HasPrefix s p = (length p \<le> length s \<and> take (length p) s = p)"

text \<open>
  \<^verbatim>\<open>
  func putenv(env []string, key, value string) []string {
      for i, s := range env {
          if strings.HasPrefix(s, "GOPATH=") {
              env[i] = key + "=" + value
              return env
          }
      }
      return append(env, key + "=" + value)
  }
  \<close>
  The loop visits the entries in order; the entry tested against the literal
  \<^verbatim>\<open>"GOPATH="\<close> is overwritten in place and the loop returns at once.
\<close>

fun putenv :: "string list \<Rightarrow> string \<Rightarrow> string \<Rightarrow> string list" where
  "putenv [] key val = [key @ ''='' @ val]"
| "putenv (s # env) key val =
     (if HasPrefix s ''GOPATH='' then (key @ ''='' @ val) # env
      else s # putenv env key val)"

text \<open>
  The composer as the specification words it (section 4.4): the first entry that starts
  with \<^verbatim>\<open>KEY=\<close> is replaced in place, and the pair is appended when there is none.
\<close>

fun putenv_spec :: "string list \<Rightarrow> string \<Rightarrow> string \<Rightarrow> string list" where
  "putenv_spec [] key val = [key @ ''='' @ val]"
| "putenv_spec (s # env) key val =
     (if HasPrefix s (key @ ''='') then (key @ ''='' @ val) # env
      else s # putenv_spec env key val)"

text \<open>The entries of an environment list that bind a key: those starting with \<^verbatim>\<open>KEY=\<close>.\<close>

definition entries_for :: "string \<Rightarrow> string list \<Rightarrow> string list" where
  "entries_for key env = filter (\<lambda>s. HasPrefix s (key @ ''='')) env"

text \<open>
  \<^verbatim>\<open>os.Getenv\<close> of Go's library, read off the process environment as \<^verbatim>\<open>os.Environ\<close>
  lists it: the value of the entry for the key, and the empty string when the key is not
  present.
\<close>

definition Getenv :: "string list \<Rightarrow> string \<Rightarrow> string" where
  "Getenv environ key =
     (case find (\<lambda>s. HasPrefix s (key @ ''='')) environ of
        None \<Rightarrow> ''''
      | Some s \<Rightarrow> drop (length key + 1) s)"

text \<open>
  The child environment of \<^verbatim>\<open>instrumentAndTest\<close> (lines 180-187); \<open>sep\<close> is
  \<^verbatim>\<open>os.PathListSeparator\<close>, a constant of the platform:
  \<^verbatim>\<open>
  env := os.Environ()
  env = putenv(env, "GOCOVOUT", "-")
  if gopath := os.Getenv("GOPATH"); gopath != "" {
      gopath = fmt.Sprintf("%s%c%s", tempDir, os.PathListSeparator, gopath)
      env = putenv(env, "GOPATH", gopath)
  } else {
      env = putenv(env, "GOPATH", tempDir)
  }
  \<close>
\<close>

definition childEnv :: "string list \<Rightarrow> string \<Rightarrow> char \<Rightarrow> string list" where
  "childEnv environ tempDir sep =
     (let env = putenv environ ''GOCOVOUT'' ''-'';
          gopath = Getenv environ ''GOPATH''
      in if gopath \<noteq> '''' then putenv env ''GOPATH'' (tempDir @ [sep] @ gopath)
         else putenv env ''GOPATH'' tempDir)"


text \<open>
  The child environment as the specification words it (sections 4.5 and 6): the same two
  compositions, made with the composer of the specification.
\<close>

definition childEnv_spec :: "string list \<Rightarrow> string \<Rightarrow> char \<Rightarrow> string list" where
  "childEnv_spec environ tempDir sep =
     (let env = putenv_spec environ ''GOCOVOUT'' ''-'';
          gopath = Getenv environ ''GOPATH''
      in if gopath \<noteq> '''' then putenv_spec env ''GOPATH'' (tempDir @ [sep] @ gopath)
         else putenv_spec env ''GOPATH'' tempDir)"
subsection \<open>The file filter of \<^verbatim>\<open>parsePackage\<close> (lines 70-75)\<close>

text \<open>
  \<^verbatim>\<open>sort.Search(n, f)\<close> of Go's library, a binary search for the least index in \<open>[0, n)\<close>
  at which \<open>f\<close> holds, and \<open>n\<close> when there is none:
  \<^verbatim>\<open>
  i, j := 0, n
  for i < j {
      h := i + (j-i)/2
      if !f(h) { i = h + 1 } else { j = h }
  }
  return i
  \<close>
  Lengths of slices are far below the range of \<^verbatim>\<open>int\<close>, so indices are natural numbers.
\<close>

function Search_loop :: "(nat \<Rightarrow> bool) \<Rightarrow> nat \<Rightarrow> nat \<Rightarrow> nat" where
  "Search_loop f i j =
     (if i < j then
        (let h = i + (j - i) div 2
         in if \<not> f h then Search_loop f (h + 1) j else Search_loop f i h)
      else i)"
  by pat_completeness auto
termination
  by (relation "measure (\<lambda>(f, i, j). j - i)") auto

declare Search_loop.simps [simp del]

definition Search :: "nat \<Rightarrow> (nat \<Rightarrow> bool) \<Rightarrow> nat" where
  "Search n f = Search_loop f 0 n"

text \<open>
  \<^verbatim>\<open>sort.SearchStrings(a, x)\<close>: \<^verbatim>\<open>Search(len(a), func(i int) bool { return a[i] >= x })\<close>.
  Go compares strings byte by byte, which is the lexicographic order on \<^typ>\<open>string\<close>.
\<close>

definition SearchStrings :: "string list \<Rightarrow> string \<Rightarrow> nat" where
  "SearchStrings a x = Search (length a) (\<lambda>i. x \<le> a ! i)"

text \<open>
  The closure \<^verbatim>\<open>filter\<close>, over the sorted member list \<^verbatim>\<open>p.GoFiles\<close>:
  \<^verbatim>\<open>
  name := f.Name()
  i := sort.SearchStrings(p.GoFiles, name)
  return i < len(p.GoFiles) && p.GoFiles[i] == name
  \<close>
\<close>

definition fileFilter :: "string list \<Rightarrow> string \<Rightarrow> bool" where
  "fileFilter GoFiles name =
     (let i = SearchStrings GoFiles name in i < length GoFiles \<and> GoFiles ! i = name)"

text \<open>\<^verbatim>\<open>strings.HasSuffix\<close> of Go's library.\<close>

definition HasSuffix :: "string \<Rightarrow> string \<Rightarrow> bool" where
  "HasSuffix s suf =
     (length suf \<le> length s \<and> drop (length s - length suf) s = suf)"

subsection \<open>Paths\<close>

text \<open>
  A path is kept as the list of its components, from the root: \<^verbatim>\<open>/tmp/gocov1/src\<close> is
  \<open>[''tmp'', ''gocov1'', ''src'']\<close>. All paths of a run are absolute. The functions below are
  those of Go's \<^verbatim>\<open>path/filepath\<close> on this representation.
\<close>

type_synonym path = "string list"

text \<open>The components of a slash-separated path string, empty ones included.\<close>

definition splitPath :: "string \<Rightarrow> string list" where
  "splitPath s =
     foldr (\<lambda>c acc. if c = CHR ''/'' then [] # acc else (c # hd acc) # tl acc) s [[]]"

text \<open>
  \<^verbatim>\<open>filepath.Clean\<close>, on a rooted path: empty components and \<^verbatim>\<open>.\<close> are dropped, \<^verbatim>\<open>..\<close> removes
  the component before it, and \<^verbatim>\<open>..\<close> at the root is dropped. The accumulator holds the
  cleaned components in reverse.
\<close>

definition Clean :: "string list \<Rightarrow> path" where
  "Clean cs =
     rev (foldl (\<lambda>acc c. if c = '''' \<or> c = ''.'' then acc
                          else if c = ''..'' then tl acc
                          else c # acc) [] cs)"

text \<open>\<^verbatim>\<open>filepath.Join\<close>: the elements are joined and the result is cleaned.\<close>

definition Join :: "string list list \<Rightarrow> path" where
  "Join elems = Clean (concat elems)"

text \<open>\<^verbatim>\<open>filepath.Base\<close>: the last component.\<close>

definition Base :: "path \<Rightarrow> string list" where
  "Base p = (if p = [] then [] else [last p])"

text \<open>
  \<^verbatim>\<open>filepath.Rel(basepath, targpath)\<close>: the path that leads from \<open>basepath\<close> to \<open>targpath\<close>;
  it climbs with \<^verbatim>\<open>..\<close> out of what the two do not share. Between two absolute paths it
  never fails.
\<close>

definition Rel :: "path \<Rightarrow> path \<Rightarrow> string list" where
  "Rel basepath targpath =
     (let n = length (longest_common_prefix basepath targpath)
      in replicate (length basepath - n) ''..'' @ drop n targpath)"

text \<open>The path as a string, for the environment of the child process.\<close>

definition path_string :: "path \<Rightarrow> string" where
  "path_string p = concat (map (\<lambda>c. CHR ''/'' # c) p)"

subsection \<open>The file system\<close>

text \<open>
  The file system maps the real path of every entry to a directory, a regular file with its
  content, or a symbolic link with its target (an absolute, cleaned path). It is an
  association list, so that a directory can be listed; the first pair for a path counts.
  The root directory always exists.
\<close>

datatype node = DirNode | FileNode string | LinkNode path

type_synonym filesystem = "(path \<times> node) list"

datatype error =
    NotExist | Exist | NotDir | IsDirectory | NotEmpty | TooManyLinks
  | IOError string
  | ExitStatus nat

definition node_at :: "filesystem \<Rightarrow> path \<Rightarrow> node option" where
  "node_at fs p = (if p = [] then Some DirNode else map_of fs p)"

text \<open>
  Path resolution as the operating system does it: a link met on the way is replaced by
  its target, at most \<open>n\<close> times. \<open>seen\<close> is the part already resolved.
\<close>

function resolve :: "nat \<Rightarrow> filesystem \<Rightarrow> path \<Rightarrow> string list \<Rightarrow> path option" where
  "resolve n fs seen [] = Some seen"
| "resolve n fs seen (c # rest) =
     (case node_at fs (seen @ [c]) of
        Some (LinkNode t) \<Rightarrow> (case n of 0 \<Rightarrow> None | Suc m \<Rightarrow> resolve m fs [] (t @ rest))
      | _ \<Rightarrow> resolve n fs (seen @ [c]) rest)"
  by pat_completeness auto
termination
  by (relation "measures [\<lambda>(n, fs, seen, rest). n, \<lambda>(n, fs, seen, rest). length rest]") auto

declare resolve.simps [simp del]

text \<open>The real path of \<open>p\<close>, every link followed (at most 40, as Linux allows).\<close>

definition realpath :: "filesystem \<Rightarrow> path \<Rightarrow> path option" where
  "realpath fs p = resolve 40 fs [] p"

text \<open>The real path of the entry \<open>p\<close> itself: links are followed in its directory part only.\<close>

definition lresolve :: "filesystem \<Rightarrow> path \<Rightarrow> path option" where
  "lresolve fs p =
     (if p = [] then Some []
      else map_option (\<lambda>d. d @ [last p]) (realpath fs (butlast p)))"

text \<open>\<^verbatim>\<open>os.Stat\<close> follows links, \<^verbatim>\<open>os.Lstat\<close> does not follow the last one.\<close>

definition fs_Stat :: "filesystem \<Rightarrow> path \<Rightarrow> node option" where
  "fs_Stat fs p = (case realpath fs p of None \<Rightarrow> None | Some q \<Rightarrow> node_at fs q)"

definition fs_Lstat :: "filesystem \<Rightarrow> path \<Rightarrow> (path \<times> node) option" where
  "fs_Lstat fs p =
     (case lresolve fs p of
        None \<Rightarrow> None
      | Some q \<Rightarrow> (case node_at fs q of None \<Rightarrow> None | Some n \<Rightarrow> Some (q, n)))"

definition has_children :: "filesystem \<Rightarrow> path \<Rightarrow> bool" where
  "has_children fs q = list_ex (\<lambda>(k, n). k \<noteq> [] \<and> butlast k = q) fs"

text \<open>\<^verbatim>\<open>os.Mkdir\<close>: the entry must not exist, its directory must.\<close>

definition fs_Mkdir :: "filesystem \<Rightarrow> path \<Rightarrow> error + filesystem" where
  "fs_Mkdir fs p =
     (case lresolve fs p of
        None \<Rightarrow> Inl TooManyLinks
      | Some q \<Rightarrow>
          if node_at fs q \<noteq> None then Inl Exist
          else if node_at fs (butlast q) \<noteq> Some DirNode then Inl NotExist
          else Inr ((q, DirNode) # fs))"

text \<open>
  \<^verbatim>\<open>os.MkdirAll\<close>: nothing to do for a directory, an error for another kind of entry;
  otherwise the parent is made first, then the directory itself.
\<close>

function fs_MkdirAll :: "filesystem \<Rightarrow> path \<Rightarrow> error + filesystem" where
  "fs_MkdirAll fs p =
     (case fs_Stat fs p of
        Some DirNode \<Rightarrow> Inr fs
      | Some _ \<Rightarrow> Inl NotDir
      | None \<Rightarrow>
          if p = [] then Inl NotExist
          else (case fs_MkdirAll fs (butlast p) of
                  Inl e \<Rightarrow> Inl e
                | Inr fs' \<Rightarrow> fs_Mkdir fs' p))"
  by pat_completeness auto
termination
  by (relation "measure (\<lambda>(fs, p). length p)") auto

declare fs_MkdirAll.simps [simp del]

text \<open>\<^verbatim>\<open>os.Symlink(oldname, newname)\<close>: a new link at \<open>newname\<close> that points to \<open>oldname\<close>.\<close>

definition fs_Symlink :: "filesystem \<Rightarrow> path \<Rightarrow> path \<Rightarrow> error + filesystem" where
  "fs_Symlink fs oldname newname =
     (case lresolve fs newname of
        None \<Rightarrow> Inl TooManyLinks
      | Some q \<Rightarrow>
          if node_at fs q \<noteq> None then Inl Exist
          else if node_at fs (butlast q) \<noteq> Some DirNode then Inl NotExist
          else Inr ((q, LinkNode oldname) # fs))"

text \<open>
  \<^verbatim>\<open>os.Remove\<close>: removes the entry the path names, a link itself and not its target; links in
  the directory part of the path are followed.
\<close>

definition fs_Remove :: "filesystem \<Rightarrow> path \<Rightarrow> error + filesystem" where
  "fs_Remove fs p =
     (case lresolve fs p of
        None \<Rightarrow> Inl TooManyLinks
      | Some q \<Rightarrow>
          if q = [] \<or> node_at fs q = None then Inl NotExist
          else if node_at fs q = Some DirNode \<and> has_children fs q then Inl NotEmpty
          else Inr (filter (\<lambda>(k, n). k \<noteq> q) fs))"

text \<open>
  \<^verbatim>\<open>os.OpenFile(name, os.O_RDWR | os.O_CREATE, 0600)\<close>: opens the file the path leads to, links
  followed, and creates it when it does not exist. The handle is the real path of the file.
\<close>

definition fs_OpenFile :: "filesystem \<Rightarrow> path \<Rightarrow> error + (path \<times> filesystem)" where
  "fs_OpenFile fs p =
     (case realpath fs p of
        None \<Rightarrow> Inl TooManyLinks
      | Some q \<Rightarrow>
          (case node_at fs q of
             Some DirNode \<Rightarrow> Inl IsDirectory
           | Some (FileNode c) \<Rightarrow> Inr (q, fs)
           | Some (LinkNode t) \<Rightarrow> Inl TooManyLinks
           | None \<Rightarrow>
               if node_at fs (butlast q) = Some DirNode then Inr (q, (q, FileNode '''') # fs)
               else Inl NotExist))"

text \<open>Writing a text at the start of an open file; the file is not truncated.\<close>

definition fs_Write :: "filesystem \<Rightarrow> path \<Rightarrow> string \<Rightarrow> filesystem" where
  "fs_Write fs q text =
     (case node_at fs q of
        Some (FileNode old) \<Rightarrow>
          (q, FileNode (text @ drop (length text) old)) # filter (\<lambda>(k, n). k \<noteq> q) fs
      | _ \<Rightarrow> fs)"

text \<open>
  \<^verbatim>\<open>os.RemoveAll\<close>: removes the entry and everything below it; links are not followed. A path
  that names nothing is no error.
\<close>

definition fs_RemoveAll :: "filesystem \<Rightarrow> path \<Rightarrow> error + filesystem" where
  "fs_RemoveAll fs p =
     (case lresolve fs p of
        None \<Rightarrow> Inl TooManyLinks
      | Some q \<Rightarrow> Inr (filter (\<lambda>(k, n). \<not> prefix q k) fs))"

text \<open>The names in the directory at the real path \<open>q\<close>.\<close>

definition fs_ReadDir :: "filesystem \<Rightarrow> path \<Rightarrow> string list" where
  "fs_ReadDir fs q =
     map last (filter (\<lambda>k. k \<noteq> [] \<and> butlast k = q) (remdups (map fst fs)))"

text \<open>
  What \<^verbatim>\<open>filepath.Walk\<close> visits below the directory at the real path \<open>q\<close>, as paths relative
  to it: every entry that is reached through directories only (links are not followed), in
  lexical order, a directory before its entries.
\<close>

definition walk_below :: "filesystem \<Rightarrow> path \<Rightarrow> path list" where
  "walk_below fs q =
     sort (filter (\<lambda>r. list_all (\<lambda>j. node_at fs (q @ take j r) = Some DirNode) [0..<length r])
            (map (drop (length q))
              (filter (\<lambda>k. prefix q k \<and> k \<noteq> q) (remdups (map fst fs)))))"

subsection \<open>The world a run acts on\<close>

text \<open>
  Every call that leaves the program is listed in \<open>calls\<close>, in the order it is made. A call
  can fail for a reason of the outside (a permission, a full disk, a file system without
  links): \<open>fails\<close> says which calls do, and with which error. The test runner is a child
  process; all that a run sees of it is the error of \<^verbatim>\<open>cmd.Run\<close>.
\<close>

datatype call =
    TempDir | Mkdir path | MkdirAll path | Symlink path path | Remove path
  | OpenFile path | Fprint path | Close path | RemoveAll path
  | Lstat path | ReadDir path
  | Getwd | Import string | ParseDir path | ParseFile path | InstrumentFile path
  | Run "string list" "string list"

text \<open>What \<^verbatim>\<open>build.Import\<close> yields: \<^verbatim>\<open>p.Dir\<close>, \<^verbatim>\<open>p.Name\<close> and \<^verbatim>\<open>p.GoFiles\<close>.\<close>

record package =
  pkgDir :: path
  pkgName :: string
  pkgGoFiles :: "string list"

text \<open>The lines written to standard error.\<close>

datatype message =
    FailedTempDir error
  | FailedSrcDir error
  | FailedInstrument string error
  | WarnDelete path
  | GoTestFailed error

text \<open>
  A syntax tree is identified with the source text that \<^verbatim>\<open>printer.Fprint\<close> writes for it.
  \<open>parser\<close> is Go's parser: the name in the package clause of a text, or a syntax error.
  \<open>importer\<close> is \<^verbatim>\<open>build.Import\<close>. \<open>tempRoot\<close> is \<^verbatim>\<open>os.TempDir()\<close> and \<open>tempName\<close> the name that
  \<^verbatim>\<open>ioutil.TempDir\<close> draws; \<open>listSeparator\<close> is \<^verbatim>\<open>os.PathListSeparator\<close>.
\<close>

record world =
  filesys :: filesystem
  fails :: "call \<Rightarrow> error option"
  tempRoot :: path
  tempName :: string
  workDir :: path
  processEnv :: "string list"
  listSeparator :: char
  importer :: "string \<Rightarrow> error + package"
  parser :: "string \<Rightarrow> error + string"
  instrumenter :: "string \<Rightarrow> error + string"
  calls :: "call list"
  stderr :: "message list"

definition log_call :: "call \<Rightarrow> world \<Rightarrow> world" where
  "log_call c w = w\<lparr>calls := calls w @ [c]\<rparr>"

definition say :: "message \<Rightarrow> world \<Rightarrow> world" where
  "say m w = w\<lparr>stderr := stderr w @ [m]\<rparr>"

text \<open>A call that changes the file system: it is noted, and fails from outside or by itself.\<close>

definition fs_call :: "call \<Rightarrow> (filesystem \<Rightarrow> error + filesystem) \<Rightarrow> world \<Rightarrow> error option \<times> world" where
  "fs_call c f w =
     (case fails w c of
        Some e \<Rightarrow> (Some e, log_call c w)
      | None \<Rightarrow>
          (case f (filesys w) of
             Inl e \<Rightarrow> (Some e, log_call c w)
           | Inr fs' \<Rightarrow> (None, (log_call c w)\<lparr>filesys := fs'\<rparr>)))"

definition os_Mkdir :: "path \<Rightarrow> world \<Rightarrow> error option \<times> world" where
  "os_Mkdir p = fs_call (Mkdir p) (\<lambda>fs. fs_Mkdir fs p)"

definition os_MkdirAll :: "path \<Rightarrow> world \<Rightarrow> error option \<times> world" where
  "os_MkdirAll p = fs_call (MkdirAll p) (\<lambda>fs. fs_MkdirAll fs p)"

definition os_Symlink :: "path \<Rightarrow> path \<Rightarrow> world \<Rightarrow> error option \<times> world" where
  "os_Symlink oldname newname = fs_call (Symlink oldname newname) (\<lambda>fs. fs_Symlink fs oldname newname)"

definition os_Remove :: "path \<Rightarrow> world \<Rightarrow> error option \<times> world" where
  "os_Remove p = fs_call (Remove p) (\<lambda>fs. fs_Remove fs p)"

definition os_RemoveAll :: "path \<Rightarrow> world \<Rightarrow> error option \<times> world" where
  "os_RemoveAll p = fs_call (RemoveAll p) (\<lambda>fs. fs_RemoveAll fs p)"

definition os_OpenFile :: "path \<Rightarrow> world \<Rightarrow> (error + path) \<times> world" where
  "os_OpenFile p w =
     (case fails w (OpenFile p) of
        Some e \<Rightarrow> (Inl e, log_call (OpenFile p) w)
      | None \<Rightarrow>
          (case fs_OpenFile (filesys w) p of
             Inl e \<Rightarrow> (Inl e, log_call (OpenFile p) w)
           | Inr (file, fs') \<Rightarrow> (Inr file, (log_call (OpenFile p) w)\<lparr>filesys := fs'\<rparr>)))"

text \<open>\<^verbatim>\<open>printer.Fprint(file, fset, f)\<close>: writes the text of the tree to the open file.\<close>

definition printer_Fprint :: "path \<Rightarrow> string \<Rightarrow> world \<Rightarrow> error option \<times> world" where
  "printer_Fprint file f w =
     (case fails w (Fprint file) of
        Some e \<Rightarrow> (Some e, log_call (Fprint file) w)
      | None \<Rightarrow> (None, (log_call (Fprint file) w)\<lparr>filesys := fs_Write (filesys w) file f\<rparr>))"

definition file_Close :: "path \<Rightarrow> world \<Rightarrow> error option \<times> world" where
  "file_Close file w = (fails w (Close file), log_call (Close file) w)"

text \<open>
  \<^verbatim>\<open>ioutil.TempDir("", "gocov")\<close>: a new directory in \<^verbatim>\<open>os.TempDir()\<close> whose name starts with
  \<^verbatim>\<open>gocov\<close>.
\<close>

definition ioutil_TempDir :: "world \<Rightarrow> (error + path) \<times> world" where
  "ioutil_TempDir w =
     (let name = Join [tempRoot w, [''gocov'' @ tempName w]]
      in case fails w TempDir of
           Some e \<Rightarrow> (Inl e, log_call TempDir w)
         | None \<Rightarrow>
             (case fs_Mkdir (filesys w) name of
                Inl e \<Rightarrow> (Inl e, log_call TempDir w)
              | Inr fs' \<Rightarrow> (Inr name, (log_call TempDir w)\<lparr>filesys := fs'\<rparr>)))"

definition os_Getwd :: "world \<Rightarrow> (error + path) \<times> world" where
  "os_Getwd w =
     (case fails w Getwd of
        Some e \<Rightarrow> (Inl e, log_call Getwd w)
      | None \<Rightarrow> (Inr (workDir w), log_call Getwd w))"

definition build_Import :: "string \<Rightarrow> path \<Rightarrow> world \<Rightarrow> (error + package) \<times> world" where
  "build_Import path srcDir w = (importer w path, log_call (Import path) w)"

text \<open>
  \<^verbatim>\<open>exec.Command(name, args...)\<close> with \<^verbatim>\<open>cmd.Env = env\<close>, then \<^verbatim>\<open>cmd.Run()\<close>: the error is nil
  when the child ran and exited with status 0.
\<close>

definition exec_Run :: "string list \<Rightarrow> string list \<Rightarrow> world \<Rightarrow> error option \<times> world" where
  "exec_Run argv env w = (fails w (Run argv env), log_call (Run argv env) w)"

text \<open>
  \<^verbatim>\<open>parser.ParseFile\<close> on one file of the directory: the file is read, links followed, and
  parsed. The result is the file name, the name of its package, and the tree.
\<close>

definition parser_ParseFile :: "path \<Rightarrow> world \<Rightarrow> error + (path \<times> string \<times> string)" where
  "parser_ParseFile filename w =
     (case fails w (ParseFile filename) of
        Some e \<Rightarrow> Inl e
      | None \<Rightarrow>
          (case fs_Stat (filesys w) filename of
             None \<Rightarrow> Inl NotExist
           | Some DirNode \<Rightarrow> Inl IsDirectory
           | Some (LinkNode t) \<Rightarrow> Inl TooManyLinks
           | Some (FileNode src) \<Rightarrow>
               (case parser w src of
                  Inl e \<Rightarrow> Inl e
                | Inr name \<Rightarrow> Inr (filename, name, src))))"

text \<open>
  The names \<^verbatim>\<open>parser.ParseDir\<close> parses among those of a directory: the ones that end in
  \<^verbatim>\<open>.go\<close> and pass the filter.
\<close>

definition parsedNames :: "(string \<Rightarrow> bool) \<Rightarrow> string list \<Rightarrow> string list" where
  "parsedNames flt names = filter (\<lambda>name. HasSuffix name ''.go'' \<and> flt name) names"

text \<open>The trees of the files that parsed, and the first error among the others.\<close>

fun collect :: "(error + 'a) list \<Rightarrow> 'a list \<times> error option" where
  "collect [] = ([], None)"
| "collect (Inl e # rs) = (fst (collect rs), Some e)"
| "collect (Inr x # rs) = (x # fst (collect rs), snd (collect rs))"

text \<open>
  \<^verbatim>\<open>parser.ParseDir(fset, path, filter, mode)\<close>: the directory is opened and listed; every
  selected file is parsed; the trees are returned with the first error met, if any.
\<close>

definition parser_ParseDir ::
  "path \<Rightarrow> (string \<Rightarrow> bool) \<Rightarrow> world \<Rightarrow> (path \<times> string \<times> string) list \<times> error option \<times> world" where
  "parser_ParseDir dir flt w =
     (let w' = log_call (ParseDir dir) w
      in case fails w (ParseDir dir) of
           Some e \<Rightarrow> ([], Some e, w')
         | None \<Rightarrow>
             (case realpath (filesys w) dir of
                None \<Rightarrow> ([], Some TooManyLinks, w')
              | Some q \<Rightarrow>
                  if node_at (filesys w) q = None then ([], Some NotExist, w')
                  else if node_at (filesys w) q \<noteq> Some DirNode then ([], Some NotDir, w')
                  else
                    (let results = map (\<lambda>name. parser_ParseFile (Join [dir, [name]]) w)
                                     (parsedNames flt (fs_ReadDir (filesys w) q))
                     in (fst (collect results), snd (collect results), w'))))"

text \<open>\<^verbatim>\<open>pkgs[name]\<close>: the files of the package of that name, \<^verbatim>\<open>nil\<close> when no file has it.\<close>

definition package_named ::
  "string \<Rightarrow> (path \<times> string \<times> string) list \<Rightarrow> (path \<times> string) list option" where
  "package_named name parsed =
     (let files = map (\<lambda>(filename, n, f). (filename, f))
                    (filter (\<lambda>(filename, n, f). n = name) parsed)
      in if files = [] then None else Some files)"

subsection \<open>\<^verbatim>\<open>parsePackage\<close> (lines 61-81)\<close>

text \<open>
  \<^verbatim>\<open>
  cwd, err := os.Getwd()
  if err != nil { return nil, nil, err }
  p, err := build.Import(path, cwd, 0)
  if err != nil { return nil, nil, err }
  sort.Strings(p.GoFiles)
  filter := func(f os.FileInfo) bool { ... }
  pkgs, err := parser.ParseDir(fset, p.Dir, filter, parser.DeclarationErrors)
  if err != nil { return nil, nil, err }
  return p, pkgs[p.Name], err
  \<close>
  The second result is \<^verbatim>\<open>nil\<close> (\<open>None\<close>) when no parsed file belongs to the package \<^verbatim>\<open>p.Name\<close>.
\<close>

definition parsePackage ::
  "string \<Rightarrow> world \<Rightarrow> (error + package \<times> (path \<times> string) list option) \<times> world" where
  "parsePackage path w =
     (case os_Getwd w of
        (Inl err, w1) \<Rightarrow> (Inl err, w1)
      | (Inr cwd, w1) \<Rightarrow>
          (case build_Import path cwd w1 of
             (Inl err, w2) \<Rightarrow> (Inl err, w2)
           | (Inr p0, w2) \<Rightarrow>
               (let p = p0\<lparr>pkgGoFiles := sort (pkgGoFiles p0)\<rparr>
                in case parser_ParseDir (pkgDir p) (fileFilter (pkgGoFiles p)) w2 of
                     (pkgs, Some err, w3) \<Rightarrow> (Inl err, w3)
                   | (pkgs, None, w3) \<Rightarrow> (Inr (p, package_named (pkgName p) pkgs), w3))))"

subsection \<open>\<^verbatim>\<open>symlinkHierarchy\<close> (lines 83-107)\<close>

text \<open>
  The callback \<^verbatim>\<open>fn\<close>; \<open>isDir\<close> is \<^verbatim>\<open>info.IsDir()\<close>:
  \<^verbatim>\<open>
  if err != nil { return err }
  rel, err := filepath.Rel(src, path)
  if err != nil { return err }
  target := filepath.Join(dst, rel)
  if info.IsDir() {
      return os.MkdirAll(target, 0700)
  } else {
      err = os.Symlink(path, target)
      if err != nil {
          // TODO copy file
          return err
      }
  }
  return nil
  \<close>
  \<^verbatim>\<open>filepath.Rel\<close> does not fail between the absolute paths of a walk.
\<close>

definition fn :: "path \<Rightarrow> path \<Rightarrow> path \<Rightarrow> bool \<Rightarrow> error option \<Rightarrow> world \<Rightarrow> error option \<times> world" where
  "fn src dst path isDir err w =
     (case err of
        Some e \<Rightarrow> (Some e, w)
      | None \<Rightarrow>
          (let rel = Rel src path;
               target = Join [dst, rel]
           in if isDir then os_MkdirAll target w
              else (case os_Symlink path target w of
                      (Some e, w') \<Rightarrow> (Some e, w')
                    | (None, w') \<Rightarrow> (None, w'))))"

text \<open>
  \<^verbatim>\<open>filepath.Walk(root, walkFn)\<close> of Go's library. The root is examined with \<^verbatim>\<open>os.Lstat\<close>, so a
  root that is a link is visited as a link and not entered. Then every entry below a root
  directory is visited in lexical order, a directory before its entries. A directory is
  read before the callback is called for it, and the callback is called once, with the
  error of the reading if there is one:
  \<^verbatim>\<open>
  if !info.IsDir() {
      return walkFn(path, info, nil)
  }
  names, err := readDirNames(path)
  err1 := walkFn(path, info, err)
  if err != nil || err1 != nil {
      return err1
  }
  \<close>
  so a directory that cannot be read is not entered, and the first error that the callback
  returns ends the walk. The entries are those of the tree as it is when the walk starts:
  they are the entries that the library finds, directory by directory, as long as the
  callback adds nothing below the root of the walk, that is, as long as the destination of
  the mirror lies outside the package directory.
\<close>

function visit ::
  "(path \<Rightarrow> bool \<Rightarrow> error option \<Rightarrow> world \<Rightarrow> error option \<times> world) \<Rightarrow>
   (path \<times> bool) list \<Rightarrow> world \<Rightarrow> error option \<times> world" where
  "visit walkFn [] w = (None, w)"
| "visit walkFn ((path, isDir) # rest) w =
     (case walkFn path isDir (if isDir then fails w (ReadDir path) else None) w of
        (Some e1, w1) \<Rightarrow> (Some e1, w1)
      | (None, w1) \<Rightarrow>
          (case (if isDir then fails w (ReadDir path) else None) of
             None \<Rightarrow> visit walkFn rest w1
           | Some e \<Rightarrow> visit walkFn (filter (\<lambda>(p, d). \<not> prefix path p) rest) w1))"
  by pat_completeness auto
termination
  by (relation "measure (\<lambda>(walkFn, entries, w). length entries)")
     (auto simp: less_Suc_eq_le)

definition filepath_Walk ::
  "path \<Rightarrow> (path \<Rightarrow> bool \<Rightarrow> error option \<Rightarrow> world \<Rightarrow> error option \<times> world) \<Rightarrow>
   world \<Rightarrow> error option \<times> world" where
  "filepath_Walk root walkFn w =
     (case fails w (Lstat root) of
        Some e \<Rightarrow> walkFn root False (Some e) w
      | None \<Rightarrow>
          (case fs_Lstat (filesys w) root of
             None \<Rightarrow> walkFn root False (Some NotExist) w
           | Some (q, DirNode) \<Rightarrow>
               visit walkFn
                 ((root, True) #
                  map (\<lambda>r. (root @ r, node_at (filesys w) (q @ r) = Some DirNode))
                    (walk_below (filesys w) q)) w
           | Some (q, n) \<Rightarrow> visit walkFn [(root, False)] w))"

definition symlinkHierarchy :: "path \<Rightarrow> path \<Rightarrow> world \<Rightarrow> error option \<times> world" where
  "symlinkHierarchy src dst w = filepath_Walk src (fn src dst) w"

subsection \<open>\<^verbatim>\<open>instrumentPackage\<close> (lines 109-149)\<close>

text \<open>
  Modelled from the spec: \<^verbatim>\<open>instrumentFile\<close>, a method of the instrumenter that is not in
  \<^verbatim>\<open>main.go\<close>. Section 4.3: it transforms the tree of one parsed file in place, or fails.
  The transformation itself is the \<open>instrumenter\<close> of the world.
\<close>

definition instrumentFile :: "path \<Rightarrow> string \<Rightarrow> world \<Rightarrow> (error + string) \<times> world" where
  "instrumentFile filename f w = (instrumenter w f, log_call (InstrumentFile filename) w)"

text \<open>What a function call yields: its error, or a panic.\<close>

datatype outcome = Nil | Err error | Panic

text \<open>
  The loop over \<^verbatim>\<open>pkg.Files\<close>:
  \<^verbatim>\<open>
  for filename, f := range pkg.Files {
      err := in.instrumentFile(f, fset)
      if err != nil { return err }
      if err == nil {
          filepath := filepath.Join(cloneDir, filepath.Base(filename))
          err = os.Remove(filepath)
          if err != nil { return err }
          file, err := os.OpenFile(filepath, os.O_RDWR | os.O_CREATE, 0600)
          if err != nil { return err }
          printer.Fprint(file, fset, f) // TODO check err?
          err = file.Close()
          if err != nil { return err }
      }
      if err != nil { return err }
  }
  return nil
  \<close>
  The result of \<^verbatim>\<open>printer.Fprint\<close> is dropped. Go does not fix the order in which a map is
  ranged over; the files are taken in the order of the list.
\<close>

fun instrumentFiles :: "path \<Rightarrow> (path \<times> string) list \<Rightarrow> world \<Rightarrow> outcome \<times> world" where
  "instrumentFiles cloneDir [] w = (Nil, w)"
| "instrumentFiles cloneDir ((filename, f) # rest) w =
     (case instrumentFile filename f w of
        (Inl err, w1) \<Rightarrow> (Err err, w1)
      | (Inr f', w1) \<Rightarrow>
          (let filepath = Join [cloneDir, Base filename]
           in case os_Remove filepath w1 of
                (Some err, w2) \<Rightarrow> (Err err, w2)
              | (None, w2) \<Rightarrow>
                  (case os_OpenFile filepath w2 of
                     (Inl err, w3) \<Rightarrow> (Err err, w3)
                   | (Inr file, w3) \<Rightarrow>
                       (case file_Close file (snd (printer_Fprint file f' w3)) of
                          (Some err, w5) \<Rightarrow> (Err err, w5)
                        | (None, w5) \<Rightarrow> instrumentFiles cloneDir rest w5))))"

text \<open>
  \<^verbatim>\<open>
  fset := token.NewFileSet()
  buildpkg, pkg, err := parsePackage(pkgpath, fset)
  if err != nil { return err }
  // Clone the directory structure, symlinking files (if possible),
  // otherwise copying the files. Instrumented files will replace
  // the symlinks with new files.
  cloneDir := filepath.Join(in.gopath, "src", pkgpath)
  err = symlinkHierarchy(buildpkg.Dir, cloneDir)
  for filename, f := range pkg.Files { ... }
  return nil
  \<close>
  The error of \<^verbatim>\<open>symlinkHierarchy\<close> is assigned to \<^verbatim>\<open>err\<close> and not read: the loop declares an
  \<^verbatim>\<open>err\<close> of its own, and the function ends with \<^verbatim>\<open>return nil\<close>. Ranging over \<^verbatim>\<open>pkg.Files\<close>
  dereferences \<^verbatim>\<open>pkg\<close>, which panics when \<^verbatim>\<open>pkg\<close> is \<^verbatim>\<open>nil\<close>.
\<close>

definition instrumentPackage :: "path \<Rightarrow> string \<Rightarrow> world \<Rightarrow> outcome \<times> world" where
  "instrumentPackage gopath pkgpath w =
     (case parsePackage pkgpath w of
        (Inl err, w1) \<Rightarrow> (Err err, w1)
      | (Inr (buildpkg, pkg), w1) \<Rightarrow>
          (let cloneDir = Join [gopath, [''src''], splitPath pkgpath];
               w2 = snd (symlinkHierarchy (pkgDir buildpkg) cloneDir w1)
           in case pkg of
                None \<Rightarrow> (Panic, w2)
              | Some files \<Rightarrow> instrumentFiles cloneDir files w2))"

subsection \<open>\<^verbatim>\<open>instrumentAndTest\<close> (lines 151-200)\<close>

text \<open>What a run yields: the result code \<^verbatim>\<open>rc\<close>, or a panic that leaves the function.\<close>

datatype result = Returns int | Panics

text \<open>
  The deferred function (lines 157-162):
  \<^verbatim>\<open>
  err := os.RemoveAll(tempDir)
  if err != nil {
      fmt.Fprintf(os.Stderr, "warning: failed to delete temporary GOPATH (%s)", tempDir)
  }
  \<close>
\<close>

definition deferred :: "path \<Rightarrow> world \<Rightarrow> world" where
  "deferred tempDir w =
     (case os_RemoveAll tempDir w of
        (Some err, w') \<Rightarrow> say (WarnDelete tempDir) w'
      | (None, w') \<Rightarrow> w')"

text \<open>
  Lines 164-199, which run once the deferred function is registered:
  \<^verbatim>\<open>
  err = os.Mkdir(filepath.Join(tempDir, "src"), 0700)
  if err != nil { ...; return 1 }
  in := &instrumenter{gopath: tempDir}
  err = in.instrumentPackage(packageName)
  if err != nil { ...; return 1 }
  env := ...
  cmd := exec.Command("go", "test", "-v", packageName)
  cmd.Env = env
  ...
  err = cmd.Run()
  if err != nil { ...; return 1 }
  return 0
  \<close>
\<close>

definition afterTempDir :: "string \<Rightarrow> path \<Rightarrow> world \<Rightarrow> result \<times> world" where
  "afterTempDir packageName tempDir w =
     (case os_Mkdir (Join [tempDir, [''src'']]) w of
        (Some err, w1) \<Rightarrow> (Returns 1, say (FailedSrcDir err) w1)
      | (None, w1) \<Rightarrow>
          (case instrumentPackage tempDir packageName w1 of
             (Panic, w2) \<Rightarrow> (Panics, w2)
           | (Err err, w2) \<Rightarrow> (Returns 1, say (FailedInstrument packageName err) w2)
           | (Nil, w2) \<Rightarrow>
               (let env = childEnv (processEnv w2) (path_string tempDir) (listSeparator w2)
                in case exec_Run [''go'', ''test'', ''-v'', packageName] env w2 of
                     (Some err, w3) \<Rightarrow> (Returns 1, say (GoTestFailed err) w3)
                   | (None, w3) \<Rightarrow> (Returns 0, w3))))"

text \<open>
  \<^verbatim>\<open>
  tempDir, err := ioutil.TempDir("", "gocov")
  if err != nil { ...; return 1 }
  defer func() { ... }()
  ...
  \<close>
  A deferred function runs when the function returns and when it panics, and this one does
  not assign \<^verbatim>\<open>rc\<close>.
\<close>

definition instrumentAndTest :: "string \<Rightarrow> world \<Rightarrow> result \<times> world" where
  "instrumentAndTest packageName w =
     (case ioutil_TempDir w of
        (Inl err, w1) \<Rightarrow> (Returns 1, say (FailedTempDir err) w1)
      | (Inr tempDir, w1) \<Rightarrow>
          (case afterTempDir packageName tempDir w1 of
             (rc, w2) \<Rightarrow> (rc, deferred tempDir w2)))"

subsection \<open>Reading the log of calls\<close>

text \<open>A call that starts the test runner.\<close>

definition is_Run :: "call \<Rightarrow> bool" where
  "is_Run c = (case c of Run argv env \<Rightarrow> True | _ \<Rightarrow> False)"

text \<open>
  \<open>quiet w w'\<close>: from \<open>w\<close> to \<open>w'\<close> the log has only grown, by calls that do not start the
  test runner, and what fails from outside is the same.
\<close>

definition quiet :: "world \<Rightarrow> world \<Rightarrow> bool" where
  "quiet w w' =
     (fails w' = fails w \<and> importer w' = importer w \<and> stderr w' = stderr w \<and>
      prefix (calls w) (calls w') \<and>
      list_all (\<lambda>c. \<not> is_Run c) (drop (length (calls w)) (calls w')))"

subsection \<open>Example worlds\<close>

text \<open>
  A package \<^verbatim>\<open>pkg\<close> in \<^verbatim>\<open>/gopath/src/pkg\<close> with one source file \<^verbatim>\<open>a.go\<close> and a file \<^verbatim>\<open>z.txt\<close>
  beside it. The instrumenter appends a mark to the text. The file system and what fails
  from outside are given.
\<close>

definition example_package :: package where
  "example_package =
     \<lparr>pkgDir = [''gopath'', ''src'', ''pkg''], pkgName = ''pkg'', pkgGoFiles = [''a.go'']\<rparr>"

definition example_world :: "filesystem \<Rightarrow> (call \<Rightarrow> error option) \<Rightarrow> world" where
  "example_world fs fl =
     \<lparr>filesys = fs,
      fails = fl,
      tempRoot = [''tmp''],
      tempName = ''1'',
      workDir = [''home''],
      processEnv = [''HOME=/home'', ''GOPATH=/gopath''],
      listSeparator = CHR '':'',
      importer = (\<lambda>p. if p = ''pkg'' then Inr example_package
                       else Inl (IOError ''cannot find package'')),
      parser = (\<lambda>src. Inr ''pkg''),
      instrumenter = (\<lambda>src. Inr (src @ ''; covered'')),
      calls = [],
      stderr = []\<rparr>"

text \<open>The package directory is a directory of the file system.\<close>

definition plain_tree :: filesystem where
  "plain_tree =
     [([''tmp''], DirNode),
      ([''gopath''], DirNode),
      ([''gopath'', ''src''], DirNode),
      ([''gopath'', ''src'', ''pkg''], DirNode),
      ([''gopath'', ''src'', ''pkg'', ''a.go''], FileNode ''package pkg''),
      ([''gopath'', ''src'', ''pkg'', ''z.txt''], FileNode ''notes'')]"

text \<open>The package directory \<^verbatim>\<open>/gopath/src/pkg\<close> is a symbolic link to \<^verbatim>\<open>/real/pkg\<close>.\<close>

definition linked_tree :: filesystem where
  "linked_tree =
     [([''tmp''], DirNode),
      ([''gopath''], DirNode),
      ([''gopath'', ''src''], DirNode),
      ([''gopath'', ''src'', ''pkg''], LinkNode [''real'', ''pkg'']),
      ([''real''], DirNode),
      ([''real'', ''pkg''], DirNode),
      ([''real'', ''pkg'', ''a.go''], FileNode ''package pkg'')]"

definition nothing_fails :: "call \<Rightarrow> error option" where
  "nothing_fails c = None"

text \<open>The same world, nothing failing, with the process environment given.\<close>

definition world_with_env :: "string list \<Rightarrow> world" where
  "world_with_env env = (example_world plain_tree nothing_fails)\<lparr>processEnv := env\<rparr>"

text \<open>Linking \<^verbatim>\<open>z.txt\<close> into the sandbox is refused.\<close>

definition link_of_z_fails :: "call \<Rightarrow> error option" where
  "link_of_z_fails c =
     (if c = Symlink [''gopath'', ''src'', ''pkg'', ''z.txt'']
                     [''tmp'', ''gocov1'', ''src'', ''pkg'', ''z.txt'']
      then Some (IOError ''permission denied'') else None)"

text \<open>The file system cannot link.\<close>

definition no_links :: "call \<Rightarrow> error option" where
  "no_links c =
     (case c of Symlink oldname newname \<Rightarrow> Some (IOError ''operation not supported'')
      | _ \<Rightarrow> None)"

text \<open>Writing the instrumented \<^verbatim>\<open>a.go\<close> fails.\<close>

definition print_fails :: "call \<Rightarrow> error option" where
  "print_fails c =
     (if c = Fprint [''tmp'', ''gocov1'', ''src'', ''pkg'', ''a.go'']
      then Some (IOError ''no space left on device'') else None)"

text \<open>The test runner exits with the status \<open>n\<close>.\<close>

definition tests_exit :: "nat \<Rightarrow> call \<Rightarrow> error option" where
  "tests_exit n c = (if is_Run c then Some (ExitStatus n) else None)"

text \<open>Removing the temporary root fails.\<close>

definition removal_fails :: "call \<Rightarrow> error option" where
  "removal_fails c =
     (if c = RemoveAll [''tmp'', ''gocov1''] then Some (IOError ''permission denied'') else None)"

section \<open>Properties of the environment list\<close>

lemma HasPrefix_prefix: "HasPrefix s p = prefix p s"
  by (auto simp: HasPrefix_def prefix_def) (metis append_eq_conv_conj)

lemma HasPrefix_GOPATH_entry: "HasPrefix (''GOPATH'' @ ''='' @ v) ''GOPATH=''"
  by (simp add: HasPrefix_prefix)

lemma key_eq_prefix:
  assumes "prefix (k @ ''='') (''GOPATH='' @ v)"
  shows "prefix ''GOPATH='' (k @ ''='')"
proof -
  have "prefix ''GOPATH='' (''GOPATH='' @ v)" by simp
  with assms consider "prefix ''GOPATH='' (k @ ''='')" | "prefix (k @ ''='') ''GOPATH=''"
    using prefix_same_cases by blast
  then show ?thesis
  proof cases
    case 1 then show ?thesis .
  next
    case 2
    then obtain r where r: "''GOPATH='' = k @ ''='' @ r" by (auto simp: prefix_def)
    then have "k = ''GOPATH''" by (auto simp: Cons_eq_append_conv)
    then show ?thesis by simp
  qed
qed

lemma same_key_GOPATH:
  assumes "HasPrefix (''GOPATH'' @ ''='' @ v) (k @ ''='')" and "HasPrefix s (k @ ''='')"
  shows "HasPrefix s ''GOPATH=''"
proof -
  from assms(1) have "prefix ''GOPATH='' (k @ ''='')"
    using key_eq_prefix [of k v] by (simp add: HasPrefix_prefix)
  with assms(2) show ?thesis
    unfolding HasPrefix_prefix using prefix_order.trans by blast
qed

lemma set_putenv: "set (putenv E key val) \<subseteq> insert (key @ ''='' @ val) (set E)"
  by (induction E) auto

lemma putenv_member: "key @ ''='' @ val \<in> set (putenv E key val)"
  by (induction E) auto

lemma entries_for_Cons:
  "entries_for k (s # E) =
     (if HasPrefix s (k @ ''='') then s # entries_for k E else entries_for k E)"
  by (simp add: entries_for_def)

lemma entries_for_empty:
  "(entries_for k E = []) = (\<forall>s\<in>set E. \<not> HasPrefix s (k @ ''=''))"
  by (auto simp: entries_for_def filter_empty_conv)

lemma putenv_GOPATH_twice:
  "putenv (putenv E ''GOPATH'' v) ''GOPATH'' v = putenv E ''GOPATH'' v"
  using HasPrefix_GOPATH_entry [of v] by (induction E) simp_all

lemma putenv_GOPATH_one_per_key:
  assumes "\<forall>k. length (entries_for k E) \<le> 1"
  shows "length (entries_for k (putenv E ''GOPATH'' v)) \<le> 1"
  using assms
proof (induction E arbitrary: k)
  case Nil
  then show ?case by (simp add: entries_for_def)
next
  case (Cons s E)
  let ?new = "''GOPATH'' @ ''='' @ v"
  have sub: "\<forall>k. length (entries_for k E) \<le> 1"
  proof
    fix k'
    from Cons.prems have "length (entries_for k' (s # E)) \<le> 1" by blast
    then show "length (entries_for k' E) \<le> 1"
      by (simp add: entries_for_Cons split: if_splits)
  qed
  show ?case
  proof (cases "HasPrefix s ''GOPATH=''")
    case True
    have "entries_for k E = []" if "HasPrefix ?new (k @ ''='')"
    proof (rule ccontr)
      assume "entries_for k E \<noteq> []"
      then obtain t where t: "t \<in> set E" "HasPrefix t (k @ ''='')"
        by (auto simp: entries_for_empty)
      with that have "HasPrefix t ''GOPATH=''" using same_key_GOPATH by blast
      with t have "entries_for ''GOPATH'' E \<noteq> []" by (auto simp: entries_for_empty)
      then have "length (entries_for ''GOPATH'' (s # E)) \<ge> 2"
        using True by (cases "entries_for ''GOPATH'' E") (auto simp: entries_for_Cons)
      moreover from Cons.prems have "length (entries_for ''GOPATH'' (s # E)) \<le> 1" by blast
      ultimately show False by simp
    qed
    moreover have "length (entries_for k E) \<le> 1" using sub by blast
    ultimately show ?thesis using True by (simp add: entries_for_Cons)
  next
    case False
    show ?thesis
    proof (cases "HasPrefix s (k @ ''='')")
      case pk: True
      from Cons.prems have "length (entries_for k (s # E)) \<le> 1" by blast
      with pk have none: "\<forall>t\<in>set E. \<not> HasPrefix t (k @ ''='')"
        by (simp add: entries_for_Cons entries_for_empty)
      have "\<not> HasPrefix ?new (k @ ''='')"
        using same_key_GOPATH [of v k s] pk False by blast
      with none have "\<forall>t\<in>set (putenv E ''GOPATH'' v). \<not> HasPrefix t (k @ ''='')"
        using set_putenv [of E "''GOPATH''" v] by auto
      then have "entries_for k (putenv E ''GOPATH'' v) = []" by (simp add: entries_for_empty)
      with False pk show ?thesis by (simp add: entries_for_Cons)
    next
      case nk: False
      with False Cons.IH [OF sub, of k] show ?thesis by (simp add: entries_for_Cons)
    qed
  qed
qed

lemma putenv_no_GOPATH:
  "entries_for ''GOPATH'' E = [] \<Longrightarrow> putenv E key val = E @ [key @ ''='' @ val]"
  by (induction E) (auto simp: entries_for_Cons split: if_splits)

lemma entries_GOPATH_putenv_other:
  "\<not> HasPrefix (key @ ''='' @ val) ''GOPATH='' \<Longrightarrow>
   entries_for ''GOPATH'' (putenv E key val) = tl (entries_for ''GOPATH'' E)"
  by (induction E) (auto simp: entries_for_Cons entries_for_def)

lemma putenv_others_kept:
  "filter (\<lambda>s. \<not> HasPrefix s ''GOPATH='' \<and> s \<noteq> key @ ''='' @ val) (putenv E key val) =
   filter (\<lambda>s. \<not> HasPrefix s ''GOPATH='' \<and> s \<noteq> key @ ''='' @ val) E"
  by (induction E) auto

lemma not_GOPATH_marker: "\<not> HasPrefix (''GOCOVOUT'' @ ''='' @ ''-'') ''GOPATH=''"
  by (simp add: HasPrefix_def)

lemma entries_for_append: "entries_for k (xs @ ys) = entries_for k xs @ entries_for k ys"
  by (simp add: entries_for_def)

lemma marker_takes_GOPATH_slot:
  assumes "length (entries_for ''GOPATH'' environ) \<le> 1"
  shows "entries_for ''GOPATH'' (putenv environ ''GOCOVOUT'' ''-'') = []"
  using entries_GOPATH_putenv_other [OF not_GOPATH_marker, of environ] assms
  by (cases "entries_for ''GOPATH'' environ") auto

lemma childEnv_shape:
  assumes "length (entries_for ''GOPATH'' environ) \<le> 1"
  shows "childEnv environ tempDir sep =
           putenv environ ''GOCOVOUT'' ''-'' @
           [''GOPATH='' @ (if Getenv environ ''GOPATH'' = '''' then tempDir
                          else tempDir @ [sep] @ Getenv environ ''GOPATH'')]"
  using marker_takes_GOPATH_slot [OF assms]
  by (simp add: childEnv_def Let_def putenv_no_GOPATH)

subsection \<open>Claim C1\<close>

text \<open>
  C1 (the code departs from the claim). The claim: \<^verbatim>\<open>putenv\<close> replaces the first entry that
  starts with the given key followed by \<^verbatim>\<open>=\<close>, and appends when no entry has that key. The
  loop compares every entry with the literal \<^verbatim>\<open>"GOPATH="\<close> instead of \<^verbatim>\<open>key + "="\<close>:
  setting \<^verbatim>\<open>GOCOVOUT\<close> in the list \<^verbatim>\<open>["GOPATH=/old"]\<close> overwrites the \<^verbatim>\<open>GOPATH\<close> entry, where
  the composer of the specification appends; and setting \<^verbatim>\<open>FOO\<close> in \<^verbatim>\<open>["FOO=1"]\<close> appends a
  second \<^verbatim>\<open>FOO\<close> entry, where the composer of the specification replaces the first.
\<close>

theorem putenv_matches_GOPATH_only:
  "putenv [''GOPATH=/old''] ''GOCOVOUT'' ''-'' = [''GOCOVOUT=-''] \<and>
   putenv_spec [''GOPATH=/old''] ''GOCOVOUT'' ''-'' = [''GOPATH=/old'', ''GOCOVOUT=-''] \<and>
   putenv [''FOO=1''] ''FOO'' ''2'' = [''FOO=1'', ''FOO=2''] \<and>
   putenv_spec [''FOO=1''] ''FOO'' ''2'' = [''FOO=2'']"
  by (simp add: HasPrefix_def)

text \<open>The example of the specification is about the key \<^verbatim>\<open>GOPATH\<close> and holds.\<close>

lemma putenv_GOPATH_example:
  "putenv [''GOPATH=/old''] ''GOPATH'' ''/new'' = [''GOPATH=/new'']"
  by (simp add: HasPrefix_def)

text \<open>For the key \<^verbatim>\<open>GOPATH\<close> the code is the composer of the specification.\<close>

lemma putenv_GOPATH_is_spec: "putenv E ''GOPATH'' v = putenv_spec E ''GOPATH'' v"
  by (induction E) simp_all

subsection \<open>Claim C4\<close>

text \<open>
  The composer of the specification is idempotent for every key: the entry it has written
  is the entry it finds again.
\<close>

lemma putenv_spec_twice: "putenv_spec (putenv_spec E k v) k v = putenv_spec E k v"
  by (induction E) (simp_all add: HasPrefix_prefix)

text \<open>
  The code finds again only what starts with \<^verbatim>\<open>GOPATH=\<close>. For any other key, on a list
  without a \<^verbatim>\<open>GOPATH\<close> entry, every composition appends one more entry.
\<close>

lemma putenv_twice_appends:
  assumes "entries_for ''GOPATH'' E = []" and "\<not> HasPrefix (k @ ''='' @ v) ''GOPATH=''"
  shows "putenv (putenv E k v) k v = E @ [k @ ''='' @ v, k @ ''='' @ v]"
proof -
  have one: "putenv E k v = E @ [k @ ''='' @ v]"
    using assms(1) by (rule putenv_no_GOPATH)
  have "entries_for ''GOPATH'' (E @ [k @ ''='' @ v]) = []"
    using assms by (simp add: entries_for_append) (simp add: entries_for_def)
  then have "putenv (E @ [k @ ''='' @ v]) k v = (E @ [k @ ''='' @ v]) @ [k @ ''='' @ v]"
    by (rule putenv_no_GOPATH)
  with one show ?thesis by simp
qed

text \<open>
  C4 (the code departs from the claim). The claim: composing the same pair twice yields the
  same list as composing it once, and the composed list holds at most one entry per key.
  Because the loop looks for \<^verbatim>\<open>"GOPATH="\<close> and not for the given key, it does not find the
  entry that the first composition wrote: composing \<^verbatim>\<open>("K", "v")\<close> into \<^verbatim>\<open>["A=1"]\<close> once gives
  \<^verbatim>\<open>["A=1", "K=v"]\<close>, and composing it again gives \<^verbatim>\<open>["A=1", "K=v", "K=v"]\<close>, another list
  and one with two entries for \<^verbatim>\<open>K\<close>; and composing \<^verbatim>\<open>("K", "v")\<close> into \<^verbatim>\<open>["K=old"]\<close>, a list
  with one entry per key, gives two entries for \<^verbatim>\<open>K\<close>. The composer of the specification
  yields \<^verbatim>\<open>["A=1", "K=v"]\<close> both times, and \<^verbatim>\<open>["K=v"]\<close>.
\<close>

theorem putenv_twice_binds_twice:
  "putenv [''A=1''] ''K'' ''v'' = [''A=1'', ''K=v''] \<and>
   putenv (putenv [''A=1''] ''K'' ''v'') ''K'' ''v'' = [''A=1'', ''K=v'', ''K=v''] \<and>
   entries_for ''K'' (putenv (putenv [''A=1''] ''K'' ''v'') ''K'' ''v'') = [''K=v'', ''K=v''] \<and>
   putenv [''K=old''] ''K'' ''v'' = [''K=old'', ''K=v''] \<and>
   entries_for ''K'' (putenv [''K=old''] ''K'' ''v'') = [''K=old'', ''K=v''] \<and>
   putenv_spec [''A=1''] ''K'' ''v'' = [''A=1'', ''K=v''] \<and>
   putenv_spec (putenv_spec [''A=1''] ''K'' ''v'') ''K'' ''v'' = [''A=1'', ''K=v''] \<and>
   putenv_spec [''K=old''] ''K'' ''v'' = [''K=v'']"
  by (simp add: HasPrefix_def entries_for_def)

text \<open>
  For the key \<^verbatim>\<open>GOPATH\<close>, where the code is the composer of the specification, both halves
  of the claim hold on a list with at most one entry per key.
\<close>

lemma putenv_GOPATH_idempotent_one_per_key:
  "putenv (putenv E ''GOPATH'' v) ''GOPATH'' v = putenv E ''GOPATH'' v \<and>
   ((\<forall>k. length (entries_for k E) \<le> 1) \<longrightarrow>
    (\<forall>k. length (entries_for k (putenv E ''GOPATH'' v)) \<le> 1))"
  using putenv_GOPATH_twice putenv_GOPATH_one_per_key by blast

lemma putenv_GOPATH_idempotent_example:
  "(\<forall>k. length (entries_for k [''HOME=/h'', ''GOPATH=/old'']) \<le> 1) \<and>
   putenv (putenv [''HOME=/h'', ''GOPATH=/old''] ''GOPATH'' ''/new'') ''GOPATH'' ''/new'' =
     [''HOME=/h'', ''GOPATH=/new''] \<and>
   (\<forall>k. length (entries_for k (putenv [''HOME=/h'', ''GOPATH=/old''] ''GOPATH'' ''/new'')) \<le> 1)"
proof -
  have h: "\<forall>k. length (entries_for k [''HOME=/h'', ''GOPATH=/old'']) \<le> 1"
  proof
    fix k show "length (entries_for k [''HOME=/h'', ''GOPATH=/old'']) \<le> 1"
      by (cases k) (auto simp: entries_for_def HasPrefix_prefix)
  qed
  have e: "putenv [''HOME=/h'', ''GOPATH=/old''] ''GOPATH'' ''/new'' = [''HOME=/h'', ''GOPATH=/new'']"
    by (simp add: HasPrefix_def)
  from h e show ?thesis
    using putenv_GOPATH_idempotent_one_per_key [of "[''HOME=/h'', ''GOPATH=/old'']" "''/new''"]
    by simp
qed

text \<open>
  Only the first entry is replaced: a list that binds \<^verbatim>\<open>GOPATH\<close> twice keeps its second
  entry, in the code as in the composer of the specification.
\<close>

lemma putenv_keeps_later_duplicates:
  "putenv [''GOPATH=/a'', ''GOPATH=/b''] ''GOPATH'' ''/c'' = [''GOPATH=/c'', ''GOPATH=/b''] \<and>
   putenv_spec [''GOPATH=/a'', ''GOPATH=/b''] ''GOPATH'' ''/c'' = [''GOPATH=/c'', ''GOPATH=/b'']"
  by (simp add: HasPrefix_def)

subsection \<open>The child environment (lines 180-187)\<close>

text \<open>
  For a process environment with at most one \<^verbatim>\<open>GOPATH\<close> entry (\<^verbatim>\<open>os.Environ\<close> lists every
  variable once), the child environment holds the entry \<^verbatim>\<open>GOCOVOUT=-\<close>; it holds exactly one
  \<^verbatim>\<open>GOPATH\<close> entry, whose value is the temporary root, the path-list separator and the old
  value when \<^verbatim>\<open>os.Getenv\<close> reports an old value, and the temporary root alone when it reports
  none; and every entry of the process environment that is neither a \<^verbatim>\<open>GOPATH\<close> entry nor
  \<^verbatim>\<open>GOCOVOUT=-\<close> is carried through unchanged, in its order.
\<close>

lemma childEnv_GOCOVOUT_GOPATH:
  assumes "length (entries_for ''GOPATH'' environ) \<le> 1"
  shows "''GOCOVOUT=-'' \<in> set (childEnv environ tempDir sep) \<and>
         entries_for ''GOPATH'' (childEnv environ tempDir sep) =
           [''GOPATH='' @ (if Getenv environ ''GOPATH'' = '''' then tempDir
                          else tempDir @ [sep] @ Getenv environ ''GOPATH'')] \<and>
         filter (\<lambda>s. \<not> HasPrefix s ''GOPATH='' \<and> s \<noteq> ''GOCOVOUT=-'')
           (childEnv environ tempDir sep) =
         filter (\<lambda>s. \<not> HasPrefix s ''GOPATH='' \<and> s \<noteq> ''GOCOVOUT=-'') environ"
proof (intro conjI)
  note shape = childEnv_shape [OF assms, of tempDir sep]
  show "''GOCOVOUT=-'' \<in> set (childEnv environ tempDir sep)"
    using putenv_member [of "''GOCOVOUT''" "''-''" environ] by (simp add: shape)
  show "entries_for ''GOPATH'' (childEnv environ tempDir sep) =
           [''GOPATH='' @ (if Getenv environ ''GOPATH'' = '''' then tempDir
                          else tempDir @ [sep] @ Getenv environ ''GOPATH'')]"
    unfolding shape entries_for_append marker_takes_GOPATH_slot [OF assms]
    by (simp add: entries_for_def HasPrefix_prefix)
  show "filter (\<lambda>s. \<not> HasPrefix s ''GOPATH='' \<and> s \<noteq> ''GOCOVOUT=-'')
           (childEnv environ tempDir sep) =
         filter (\<lambda>s. \<not> HasPrefix s ''GOPATH='' \<and> s \<noteq> ''GOCOVOUT=-'') environ"
    using putenv_others_kept [of "''GOCOVOUT''" "''-''" environ]
    by (simp add: shape HasPrefix_prefix)
qed

lemma childEnv_examples:
  "childEnv [''HOME=/h'', ''GOPATH=/go''] ''/tmp/gocov1'' CHR '':'' =
     [''HOME=/h'', ''GOCOVOUT=-'', ''GOPATH=/tmp/gocov1:/go'']"
  "childEnv [''HOME=/h''] ''/tmp/gocov1'' CHR '':'' =
     [''HOME=/h'', ''GOCOVOUT=-'', ''GOPATH=/tmp/gocov1'']"
  "childEnv [''GOPATH=''] ''/tmp/gocov1'' CHR '':'' = [''GOCOVOUT=-'', ''GOPATH=/tmp/gocov1'']"
  "childEnv [''HOME=/h'', ''GOPATH=/go'', ''USER=u''] ''/tmp/gocov1'' CHR '':'' =
     [''HOME=/h'', ''GOCOVOUT=-'', ''USER=u'', ''GOPATH=/tmp/gocov1:/go'']"
  by (simp_all add: childEnv_def Getenv_def HasPrefix_def)

text \<open>
  When the process environment holds no entry for \<^verbatim>\<open>GOCOVOUT\<close>, the new entry is the only one
  in the child environment.
\<close>

lemma putenv_marker_only:
  "entries_for ''GOCOVOUT'' E = [] \<Longrightarrow>
   entries_for ''GOCOVOUT'' (putenv E ''GOCOVOUT'' ''-'') = [''GOCOVOUT=-'']"
  by (induction E) (auto simp: entries_for_Cons HasPrefix_prefix split: if_splits)

lemma childEnv_GOCOVOUT_only:
  assumes "length (entries_for ''GOPATH'' environ) \<le> 1"
    and "entries_for ''GOCOVOUT'' environ = []"
  shows "entries_for ''GOCOVOUT'' (childEnv environ tempDir sep) = [''GOCOVOUT=-'']"
  unfolding childEnv_shape [OF assms(1)] entries_for_append putenv_marker_only [OF assms(2)]
  by (simp add: entries_for_def HasPrefix_prefix)

text \<open>
  An entry for \<^verbatim>\<open>GOCOVOUT\<close> that the process environment holds is never replaced: no
  composition of the code touches an entry that does not start with \<^verbatim>\<open>GOPATH=\<close>. The child
  environment holds one \<^verbatim>\<open>GOCOVOUT\<close> entry more than the process environment.
\<close>

lemma GOCOVOUT_not_GOPATH:
  "HasPrefix s ''GOPATH='' \<Longrightarrow> \<not> HasPrefix s (''GOCOVOUT'' @ ''='')"
  by (auto simp: HasPrefix_prefix prefix_def)

lemma entries_GOCOVOUT_putenv_marker:
  "length (entries_for ''GOCOVOUT'' (putenv E ''GOCOVOUT'' ''-'')) =
   Suc (length (entries_for ''GOCOVOUT'' E))"
  using GOCOVOUT_not_GOPATH
  by (induction E) (auto simp: entries_for_Cons HasPrefix_prefix)

lemma entries_GOCOVOUT_putenv_GOPATH:
  "entries_for ''GOCOVOUT'' (putenv E ''GOPATH'' v) = entries_for ''GOCOVOUT'' E"
  using GOCOVOUT_not_GOPATH
  by (induction E) (auto simp: entries_for_Cons HasPrefix_prefix)

lemma childEnv_one_more_GOCOVOUT:
  "length (entries_for ''GOCOVOUT'' (childEnv environ tempDir sep)) =
   Suc (length (entries_for ''GOCOVOUT'' environ))"
  by (simp add: childEnv_def Let_def entries_GOCOVOUT_putenv_GOPATH
      entries_GOCOVOUT_putenv_marker)

lemma childEnv_spec_examples:
  "childEnv_spec [''HOME=/h'', ''GOPATH=/go''] ''/tmp/gocov1'' CHR '':'' =
     [''HOME=/h'', ''GOPATH=/tmp/gocov1:/go'', ''GOCOVOUT=-'']"
  "childEnv_spec [''GOCOVOUT=x''] ''/tmp/gocov1'' CHR '':'' =
     [''GOCOVOUT=-'', ''GOPATH=/tmp/gocov1'']"
  by (simp_all add: childEnv_spec_def Getenv_def HasPrefix_def)
section \<open>Properties of the file filter\<close>

lemma Search_loop_done: "\<not> i < j \<Longrightarrow> Search_loop f i j = i"
  by (subst Search_loop.simps) simp

lemma Search_loop_left:
  "i < j \<Longrightarrow> f (i + (j - i) div 2) \<Longrightarrow>
   Search_loop f i j = Search_loop f i (i + (j - i) div 2)"
  by (subst Search_loop.simps) (simp add: Let_def)

lemma Search_loop_right:
  "i < j \<Longrightarrow> \<not> f (i + (j - i) div 2) \<Longrightarrow>
   Search_loop f i j = Search_loop f (i + (j - i) div 2 + 1) j"
  by (subst Search_loop.simps) (simp add: Let_def)

lemma Search_loop_bounds:
  "i \<le> j \<Longrightarrow> i \<le> Search_loop f i j \<and> Search_loop f i j \<le> j"
proof (induction f i j rule: Search_loop.induct)
  case (1 f i j)
  show ?case
  proof (cases "i < j")
    case False
    then show ?thesis using "1.prems" by (simp add: Search_loop_done)
  next
    case True
    define h where "h = i + (j - i) div 2"
    from True have hb: "i \<le> h" "h < j" by (auto simp: h_def)
    show ?thesis
    proof (cases "f h")
      case fh: True
      have "i \<le> Search_loop f i h \<and> Search_loop f i h \<le> h"
        using "1.IH"(2) [of h] True fh hb by (simp add: h_def)
      moreover have "Search_loop f i j = Search_loop f i h"
        using Search_loop_left [of i j f] True fh by (simp add: h_def)
      ultimately show ?thesis using hb by simp
    next
      case nfh: False
      have "h + 1 \<le> Search_loop f (h + 1) j \<and> Search_loop f (h + 1) j \<le> j"
        using "1.IH"(1) [of h] True nfh hb by (simp add: h_def)
      moreover have "Search_loop f i j = Search_loop f (h + 1) j"
        using Search_loop_right [of i j f] True nfh by (simp add: h_def)
      ultimately show ?thesis using hb by simp
    qed
  qed
qed

text \<open>
  On a predicate that is monotone below \<open>n\<close>, the loop keeps the invariant of the library's
  comment: \<open>f\<close> fails below \<open>i\<close> and holds from \<open>j\<close> on.
\<close>

lemma Search_loop_least:
  assumes "i \<le> j" "j \<le> n"
    and "\<And>k l. k \<le> l \<Longrightarrow> l < n \<Longrightarrow> f k \<Longrightarrow> f l"
    and "\<And>k. k < i \<Longrightarrow> \<not> f k"
    and "\<And>k. j \<le> k \<Longrightarrow> k < n \<Longrightarrow> f k"
  shows "(\<forall>k < Search_loop f i j. \<not> f k) \<and>
         (\<forall>k. Search_loop f i j \<le> k \<and> k < n \<longrightarrow> f k)"
  using assms
proof (induction f i j rule: Search_loop.induct)
  case (1 f i j)
  show ?case
  proof (cases "i < j")
    case False
    with "1.prems"(1) have "i = j" by simp
    moreover have "Search_loop f i j = i" using False by (rule Search_loop_done)
    ultimately show ?thesis using "1.prems"(4,5) by auto
  next
    case True
    define h where "h = i + (j - i) div 2"
    from True have hb: "i \<le> h" "h < j" by (auto simp: h_def)
    show ?thesis
    proof (cases "f h")
      case fh: True
      have upper: "\<And>k. h \<le> k \<Longrightarrow> k < n \<Longrightarrow> f k"
        using "1.prems"(3) fh by blast
      have hn: "h \<le> n" using hb "1.prems"(2) by simp
      have "(\<forall>k < Search_loop f i h. \<not> f k) \<and>
            (\<forall>k. Search_loop f i h \<le> k \<and> k < n \<longrightarrow> f k)"
        by (rule "1.IH"(2) [of h, OF True h_def _ hb(1) hn "1.prems"(3) "1.prems"(4) upper])
           (use fh in auto)
      moreover have "Search_loop f i j = Search_loop f i h"
        using Search_loop_left [of i j f] True fh by (simp add: h_def)
      ultimately show ?thesis by simp
    next
      case nfh: False
      have lower: "\<And>k. k < h + 1 \<Longrightarrow> \<not> f k"
      proof -
        fix k assume "k < h + 1"
        then have "k \<le> h" by simp
        with "1.prems"(3) [of k h] hb "1.prems"(2) nfh show "\<not> f k" by auto
      qed
      have hj: "h + 1 \<le> j" using hb by simp
      have "(\<forall>k < Search_loop f (h + 1) j. \<not> f k) \<and>
            (\<forall>k. Search_loop f (h + 1) j \<le> k \<and> k < n \<longrightarrow> f k)"
        by (rule "1.IH"(1) [of h, OF True h_def _ hj "1.prems"(2) "1.prems"(3) lower "1.prems"(5)])
           (use nfh in auto)
      moreover have "Search_loop f i j = Search_loop f (h + 1) j"
        using Search_loop_right [of i j f] True nfh by (simp add: h_def)
      ultimately show ?thesis by simp
    qed
  qed
qed

lemma SearchStrings_least:
  assumes "sorted a"
  shows "(\<forall>k < SearchStrings a x. \<not> x \<le> a ! k) \<and>
         (\<forall>k. SearchStrings a x \<le> k \<and> k < length a \<longrightarrow> x \<le> a ! k)"
  unfolding SearchStrings_def Search_def
proof (rule Search_loop_least [where n = "length a"])
  show "0 \<le> length a" "length a \<le> length a" by simp_all
  show "\<And>k l. k \<le> l \<Longrightarrow> l < length a \<Longrightarrow> x \<le> a ! k \<Longrightarrow> x \<le> a ! l"
  proof -
    fix k l assume "k \<le> l" "l < length a" and xk: "x \<le> a ! k"
    then have "a ! k \<le> a ! l" using assms by (simp add: sorted_nth_mono)
    with xk show "x \<le> a ! l" by (rule order_trans)
  qed
  show "\<And>k. k < 0 \<Longrightarrow> \<not> x \<le> a ! k" by simp
  show "\<And>k. length a \<le> k \<Longrightarrow> k < length a \<Longrightarrow> x \<le> a ! k" by simp
qed

lemma fileFilter_sorted:
  assumes "sorted a"
  shows "fileFilter a name = (name \<in> set a)"
proof
  assume "fileFilter a name"
  then have "SearchStrings a name < length a \<and> a ! SearchStrings a name = name"
    unfolding fileFilter_def Let_def .
  then show "name \<in> set a" using nth_mem by metis
next
  assume "name \<in> set a"
  then obtain m where m: "m < length a" "a ! m = name" by (auto simp: in_set_conv_nth)
  define r where "r = SearchStrings a name"
  have least: "(\<forall>k < r. \<not> name \<le> a ! k) \<and> (\<forall>k. r \<le> k \<and> k < length a \<longrightarrow> name \<le> a ! k)"
    unfolding r_def using assms by (rule SearchStrings_least)
  have "\<not> m < r" using least m by auto
  then have rm: "r \<le> m" by simp
  with m have rl: "r < length a" by simp
  have "name \<le> a ! r" using least rl by blast
  moreover have "a ! r \<le> a ! m" using assms rm m(1) by (simp add: sorted_nth_mono)
  ultimately have "a ! r = name" using m(2) by simp
  with rl show "fileFilter a name" unfolding fileFilter_def Let_def r_def by blast
qed

section \<open>Properties of a run\<close>

subsection \<open>What the calls of a run leave unchanged\<close>

lemma quiet_refl [simp]: "quiet w w"
  by (simp add: quiet_def)

lemma quiet_trans: "quiet w w1 \<Longrightarrow> quiet w1 w2 \<Longrightarrow> quiet w w2"
  by (auto simp: quiet_def prefix_def)

lemma quiet_log_call: "\<not> is_Run c \<Longrightarrow> quiet w (log_call c w)"
  by (simp add: quiet_def log_call_def)

lemma quiet_filesys [simp]: "quiet w (w'\<lparr>filesys := x\<rparr>) = quiet w w'"
  by (simp add: quiet_def)

lemma quiet_fs_call: "\<not> is_Run c \<Longrightarrow> quiet w (snd (fs_call c f w))"
  by (simp add: fs_call_def quiet_log_call split: option.splits sum.splits)

lemma is_Run_simps [simp]:
  "\<not> is_Run TempDir" "\<not> is_Run (Mkdir p)" "\<not> is_Run (MkdirAll p)" "\<not> is_Run (Symlink p q)"
  "\<not> is_Run (Remove p)" "\<not> is_Run (OpenFile p)" "\<not> is_Run (Fprint p)" "\<not> is_Run (Close p)"
  "\<not> is_Run (RemoveAll p)" "\<not> is_Run (Lstat p)" "\<not> is_Run (ReadDir p)" "\<not> is_Run Getwd"
  "\<not> is_Run (Import s)" "\<not> is_Run (ParseDir p)" "\<not> is_Run (ParseFile p)"
  "\<not> is_Run (InstrumentFile p)" "is_Run (Run argv env)"
  by (simp_all add: is_Run_def)

lemma quiet_os_Mkdir: "quiet w (snd (os_Mkdir p w))"
  by (simp add: os_Mkdir_def quiet_fs_call)

lemma quiet_os_MkdirAll: "quiet w (snd (os_MkdirAll p w))"
  by (simp add: os_MkdirAll_def quiet_fs_call)

lemma quiet_os_Symlink: "quiet w (snd (os_Symlink p q w))"
  by (simp add: os_Symlink_def quiet_fs_call)

lemma quiet_os_Remove: "quiet w (snd (os_Remove p w))"
  by (simp add: os_Remove_def quiet_fs_call)

lemma quiet_os_OpenFile: "quiet w (snd (os_OpenFile p w))"
  by (simp add: os_OpenFile_def quiet_log_call split: option.splits sum.splits prod.splits)

lemma quiet_printer_Fprint: "quiet w (snd (printer_Fprint file f w))"
  by (simp add: printer_Fprint_def quiet_log_call split: option.splits)

lemma quiet_file_Close: "quiet w (snd (file_Close file w))"
  by (simp add: file_Close_def quiet_log_call)

lemma quiet_ioutil_TempDir: "quiet w (snd (ioutil_TempDir w))"
  by (simp add: ioutil_TempDir_def Let_def quiet_log_call split: option.splits sum.splits)

lemma quiet_os_Getwd: "quiet w (snd (os_Getwd w))"
  by (simp add: os_Getwd_def quiet_log_call split: option.splits)

lemma quiet_build_Import: "quiet w (snd (build_Import path cwd w))"
  by (simp add: build_Import_def quiet_log_call)

lemma parser_ParseDir_world:
  "snd (snd (parser_ParseDir dir flt w)) = log_call (ParseDir dir) w"
proof (cases "fails w (ParseDir dir)")
  case (Some e)
  then show ?thesis by (simp add: parser_ParseDir_def)
next
  case None
  show ?thesis
  proof (cases "realpath (filesys w) dir")
    case n: None
    with None show ?thesis by (simp add: parser_ParseDir_def)
  next
    case (Some q)
    with None show ?thesis by (simp add: parser_ParseDir_def Let_def)
  qed
qed

lemma quiet_parser_ParseDir: "quiet w (snd (snd (parser_ParseDir dir flt w)))"
  by (simp add: parser_ParseDir_world quiet_log_call)

lemma quiet_instrumentFile: "quiet w (snd (instrumentFile filename f w))"
  by (simp add: instrumentFile_def quiet_log_call)

lemma quiet_fn: "quiet w (snd (fn src dst path isDir err w))"
  by (simp add: fn_def Let_def quiet_os_MkdirAll quiet_os_Symlink
      split: option.splits prod.splits)
     (metis quiet_os_Symlink snd_conv)

lemma quiet_visit:
  "(\<And>path isDir err w. quiet w (snd (walkFn path isDir err w))) \<Longrightarrow>
   quiet w (snd (visit walkFn entries w))"
proof (induction walkFn entries w rule: visit.induct)
  case (1 walkFn w)
  then show ?case by simp
next
  case (2 walkFn path isDir rest w)
  note step = "2.prems"
  define err where "err = (if isDir then fails w (ReadDir path) else None)"
  obtain r w1 where a: "walkFn path isDir err w = (r, w1)" by (cases "walkFn path isDir err w")
  have q1: "quiet w w1" using step [of w path isDir err] a by simp
  show ?case
  proof (cases r)
    case (Some e1)
    with a q1 show ?thesis by (simp add: err_def)
  next
    case None
    show ?thesis
    proof (cases err)
      case rd: None
      have "quiet w1 (snd (visit walkFn rest w1))"
        using "2.IH"(1) [OF a [unfolded err_def, symmetric] None rd [unfolded err_def] step] .
      with q1 have "quiet w (snd (visit walkFn rest w1))" by (rule quiet_trans)
      with a None rd show ?thesis by (simp add: err_def)
    next
      case rd: (Some e)
      have "quiet w1 (snd (visit walkFn (filter (\<lambda>(p, d). \<not> prefix path p) rest) w1))"
        using "2.IH"(2) [OF a [unfolded err_def, symmetric] None rd [unfolded err_def] step] .
      with q1 have "quiet w (snd (visit walkFn (filter (\<lambda>(p, d). \<not> prefix path p) rest) w1))"
        by (rule quiet_trans)
      with a None rd show ?thesis by (simp add: err_def)
    qed
  qed
qed

lemma quiet_filepath_Walk:
  assumes "\<And>path isDir err w. quiet w (snd (walkFn path isDir err w))"
  shows "quiet w (snd (filepath_Walk root walkFn w))"
proof -
  have v: "quiet w (snd (visit walkFn entries w))" for entries
    using assms by (rule quiet_visit)
  show ?thesis
  proof (cases "fails w (Lstat root)")
    case (Some e)
    then show ?thesis by (simp add: filepath_Walk_def assms)
  next
    case None
    show ?thesis
    proof (cases "fs_Lstat (filesys w) root")
      case n: None
      with None show ?thesis by (simp add: filepath_Walk_def assms)
    next
      case (Some qn)
      obtain q n where qn: "qn = (q, n)" by (cases qn)
      with None Some show ?thesis
        by (cases n) (simp_all add: filepath_Walk_def v del: visit.simps)
    qed
  qed
qed

lemma quiet_symlinkHierarchy: "quiet w (snd (symlinkHierarchy src dst w))"
  unfolding symlinkHierarchy_def by (rule quiet_filepath_Walk) (rule quiet_fn)

lemma quiet_parsePackage: "quiet w (snd (parsePackage path w))"
proof -
  obtain r1 w1 where a: "os_Getwd w = (r1, w1)" by (cases "os_Getwd w")
  have q1: "quiet w w1" using quiet_os_Getwd [of w] a by simp
  show ?thesis
  proof (cases r1)
    case (Inl e)
    with a q1 show ?thesis by (simp add: parsePackage_def)
  next
    case (Inr cwd)
    obtain r2 w2 where b: "build_Import path cwd w1 = (r2, w2)"
      by (cases "build_Import path cwd w1")
    have q2: "quiet w w2" using quiet_build_Import [of w1 path cwd] b q1 by (auto intro: quiet_trans)
    show ?thesis
    proof (cases r2)
      case (Inl e)
      with a b Inr q2 show ?thesis by (simp add: parsePackage_def)
    next
      case p0: (Inr p0)
      let ?p = "p0\<lparr>pkgGoFiles := sort (pkgGoFiles p0)\<rparr>"
      obtain pkgs r3 w3 where c: "parser_ParseDir (pkgDir ?p) (fileFilter (pkgGoFiles ?p)) w2 = (pkgs, r3, w3)"
        by (cases "parser_ParseDir (pkgDir ?p) (fileFilter (pkgGoFiles ?p)) w2") auto
      have "quiet w2 w3" using quiet_parser_ParseDir [of w2 "pkgDir ?p" "fileFilter (pkgGoFiles ?p)"] c by simp
      with q2 have q3: "quiet w w3" by (rule quiet_trans)
      from a b Inr p0 c q3 show ?thesis
        by (cases r3) (simp_all add: parsePackage_def Let_def del: package.simps)
    qed
  qed
qed

lemma quiet_instrumentFiles: "quiet w (snd (instrumentFiles cloneDir files w))"
proof (induction cloneDir files w rule: instrumentFiles.induct)
  case (1 cloneDir w)
  then show ?case by simp
next
  case (2 cloneDir filename f rest w)
  obtain r1 w1 where a: "instrumentFile filename f w = (r1, w1)" by (cases "instrumentFile filename f w")
  have q1: "quiet w w1" using quiet_instrumentFile [of w filename f] a by simp
  show ?case
  proof (cases r1)
    case (Inl e)
    with a q1 show ?thesis by simp
  next
    case (Inr f')
    define filepath where "filepath = Join [cloneDir, Base filename]"
    obtain r2 w2 where b: "os_Remove filepath w1 = (r2, w2)" by (cases "os_Remove filepath w1")
    have q2: "quiet w w2" using quiet_os_Remove [of w1 filepath] b q1 by (auto intro: quiet_trans)
    show ?thesis
    proof (cases r2)
      case (Some e)
      with a Inr b q2 show ?thesis by (simp add: filepath_def)
    next
      case None
      obtain r3 w3 where c: "os_OpenFile filepath w2 = (r3, w3)" by (cases "os_OpenFile filepath w2")
      have q3: "quiet w w3" using quiet_os_OpenFile [of w2 filepath] c q2 by (auto intro: quiet_trans)
      show ?thesis
      proof (cases r3)
        case (Inl e)
        with a Inr b None c q3 show ?thesis by (simp add: filepath_def)
      next
        case fl: (Inr fh)
        define w4 where "w4 = snd (printer_Fprint fh f' w3)"
        have q4: "quiet w w4" unfolding w4_def using quiet_printer_Fprint [of w3 fh f'] q3
          by (auto intro: quiet_trans)
        obtain r5 w5 where d: "file_Close fh w4 = (r5, w5)" by (cases "file_Close fh w4")
        have q5: "quiet w w5" using quiet_file_Close [of w4 fh] d q4 by (auto intro: quiet_trans)
        show ?thesis
        proof (cases r5)
          case (Some e)
          with a Inr b None c fl d q5 show ?thesis by (simp add: filepath_def w4_def)
        next
          case n5: None
          have "quiet w5 (snd (instrumentFiles cloneDir rest w5))"
            using "2.IH" [OF a [symmetric] Inr filepath_def b [symmetric] None c [symmetric] fl
                d [symmetric, unfolded w4_def] n5] .
          with q5 have "quiet w (snd (instrumentFiles cloneDir rest w5))" by (rule quiet_trans)
          with a Inr b None c fl d n5 show ?thesis by (simp add: filepath_def w4_def)
        qed
      qed
    qed
  qed
qed

lemma quiet_instrumentPackage: "quiet w (snd (instrumentPackage gopath pkgpath w))"
proof -
  obtain r1 w1 where a: "parsePackage pkgpath w = (r1, w1)" by (cases "parsePackage pkgpath w")
  have q1: "quiet w w1" using quiet_parsePackage [of w pkgpath] a by simp
  show ?thesis
  proof (cases r1)
    case (Inl e)
    with a q1 show ?thesis by (simp add: instrumentPackage_def)
  next
    case (Inr bp)
    obtain buildpkg pkg where bp: "bp = (buildpkg, pkg)" by (cases bp)
    define cloneDir where "cloneDir = Join [gopath, [''src''], splitPath pkgpath]"
    define w2 where "w2 = snd (symlinkHierarchy (pkgDir buildpkg) cloneDir w1)"
    have q2: "quiet w w2" unfolding w2_def using quiet_symlinkHierarchy q1 by (blast intro: quiet_trans)
    show ?thesis
    proof (cases pkg)
      case None
      with a Inr bp q2 show ?thesis
        by (simp add: instrumentPackage_def Let_def cloneDir_def w2_def)
    next
      case (Some files)
      have "quiet w (snd (instrumentFiles cloneDir files w2))"
        using q2 quiet_instrumentFiles by (blast intro: quiet_trans)
      with a Inr bp Some show ?thesis
        by (simp add: instrumentPackage_def Let_def cloneDir_def w2_def)
    qed
  qed
qed

lemma quiet_runs:
  assumes "quiet w w'"
  shows "filter is_Run (calls w') = filter is_Run (calls w)" and "fails w' = fails w"
    and "importer w' = importer w" and "stderr w' = stderr w"
proof -
  from assms obtain cs where cs: "calls w' = calls w @ cs" by (auto simp: quiet_def prefix_def)
  with assms have "list_all (\<lambda>c. \<not> is_Run c) cs" by (simp add: quiet_def)
  then have "filter is_Run cs = []" by (simp add: list_all_iff filter_empty_conv)
  with cs show "filter is_Run (calls w') = filter is_Run (calls w)" by simp
  from assms show "fails w' = fails w" "importer w' = importer w" "stderr w' = stderr w"
    by (simp_all add: quiet_def)
qed

lemma say_fields [simp]:
  "calls (say m w) = calls w" "fails (say m w) = fails w" "filesys (say m w) = filesys w"
  "stderr (say m w) = stderr w @ [m]" "importer (say m w) = importer w"
  by (simp_all add: say_def)

text \<open>What the lines after the creation of the temporary root do to the log.\<close>

lemma afterTempDir_runs:
  assumes "afterTempDir packageName tempDir w1 = (rc, w2)"
  shows "fails w2 = fails w1 \<and>
         ((filter is_Run (calls w2) = filter is_Run (calls w1) \<and> rc \<noteq> Returns 0) \<or>
          (\<exists>c. filter is_Run (calls w2) = filter is_Run (calls w1) @ [c] \<and> is_Run c \<and>
               rc = (if fails w1 c = None then Returns 0 else Returns 1)))"
proof -
  let ?src = "Join [tempDir, [''src'']]"
  obtain r1 wa where a: "os_Mkdir ?src w1 = (r1, wa)" by (cases "os_Mkdir ?src w1")
  have qa: "quiet w1 wa" using quiet_os_Mkdir [of w1 ?src] a by simp
  show ?thesis
  proof (cases r1)
    case (Some e)
    with a assms have "rc = Returns 1" "w2 = say (FailedSrcDir e) wa"
      by (simp_all add: afterTempDir_def)
    with quiet_runs [OF qa] show ?thesis by simp
  next
    case None
    obtain r2 wb where b: "instrumentPackage tempDir packageName wa = (r2, wb)"
      by (cases "instrumentPackage tempDir packageName wa")
    have "quiet wa wb" using quiet_instrumentPackage [of wa tempDir packageName] b by simp
    with qa have qb: "quiet w1 wb" by (rule quiet_trans)
    show ?thesis
    proof (cases r2)
      case Panic
      with a None b assms have "rc = Panics" "w2 = wb" by (simp_all add: afterTempDir_def)
      with quiet_runs [OF qb] show ?thesis by simp
    next
      case (Err e)
      with a None b assms have "rc = Returns 1" "w2 = say (FailedInstrument packageName e) wb"
        by (simp_all add: afterTempDir_def)
      with quiet_runs [OF qb] show ?thesis by simp
    next
      case Nil
      define env where "env = childEnv (processEnv wb) (path_string tempDir) (listSeparator wb)"
      define c where "c = Run [''go'', ''test'', ''-v'', packageName] env"
      have c: "is_Run c" by (simp add: c_def)
      have fc: "fails wb c = fails w1 c" using quiet_runs(2) [OF qb] by simp
      show ?thesis
      proof (cases "fails wb c")
        case n: None
        with a None b Nil assms have "rc = Returns 0" "w2 = log_call c wb"
          by (simp_all add: afterTempDir_def exec_Run_def Let_def env_def c_def)
        with quiet_runs [OF qb] c n fc show ?thesis
          by (auto simp: log_call_def)
      next
        case (Some e)
        with a None b Nil assms have "rc = Returns 1" "w2 = say (GoTestFailed e) (log_call c wb)"
          by (simp_all add: afterTempDir_def exec_Run_def Let_def env_def c_def)
        with quiet_runs [OF qb] c Some fc show ?thesis
          by (auto simp: log_call_def)
      qed
    qed
  qed
qed

lemma deferred_fields:
  "calls (deferred tempDir w) = calls w @ [RemoveAll tempDir]"
  "fails (deferred tempDir w) = fails w"
  by (simp_all add: deferred_def os_RemoveAll_def fs_call_def log_call_def
      split: option.splits sum.splits)

lemma afterTempDir_fails:
  "afterTempDir packageName tempDir w1 = (rc, w2) \<Longrightarrow> fails w2 = fails w1"
  using afterTempDir_runs by blast

text \<open>A package that \<^verbatim>\<open>build.Import\<close> does not find ends the run with the code 1 and a message.\<close>

lemma afterTempDir_unresolved:
  assumes "afterTempDir packageName tempDir w1 = (rc, w2)"
    and "importer w1 packageName = Inl e"
  shows "rc = Returns 1 \<and>
         (\<exists>e'. stderr w2 = stderr w1 @ [FailedSrcDir e'] \<or>
               stderr w2 = stderr w1 @ [FailedInstrument packageName e'])"
proof -
  let ?src = "Join [tempDir, [''src'']]"
  obtain r1 wa where a: "os_Mkdir ?src w1 = (r1, wa)" by (cases "os_Mkdir ?src w1")
  have qa: "quiet w1 wa" using quiet_os_Mkdir [of w1 ?src] a by simp
  show ?thesis
  proof (cases r1)
    case (Some e1)
    with a assms(1) have "rc = Returns 1" "w2 = say (FailedSrcDir e1) wa"
      by (simp_all add: afterTempDir_def)
    with quiet_runs(4) [OF qa] show ?thesis by simp
  next
    case None
    obtain r2 wb where b: "os_Getwd wa = (r2, wb)" by (cases "os_Getwd wa")
    have "quiet wa wb" using quiet_os_Getwd [of wa] b by simp
    with qa have qb: "quiet w1 wb" by (rule quiet_trans)
    have "\<exists>e' w'. instrumentPackage tempDir packageName wa = (Err e', w') \<and> quiet w1 w'"
    proof (cases r2)
      case (Inl e2)
      with b qb show ?thesis by (simp add: instrumentPackage_def parsePackage_def)
    next
      case (Inr cwd)
      have "importer wb packageName = Inl e" using quiet_runs(3) [OF qb] assms(2) by simp
      moreover have "quiet w1 (log_call (Import packageName) wb)"
        using qb quiet_log_call [of "Import packageName" wb] by (auto intro: quiet_trans)
      ultimately show ?thesis using b Inr
        by (simp add: instrumentPackage_def parsePackage_def build_Import_def)
    qed
    then obtain e' w' where ip: "instrumentPackage tempDir packageName wa = (Err e', w')"
      and q: "quiet w1 w'" by blast
    with a None assms(1) have "rc = Returns 1" "w2 = say (FailedInstrument packageName e') w'"
      by (simp_all add: afterTempDir_def)
    with quiet_runs(4) [OF q] show ?thesis by simp
  qed
qed

lemma deferred_removes:
  "fails w (RemoveAll tempDir) = None \<Longrightarrow> lresolve (filesys w) tempDir = Some q \<Longrightarrow>
   filesys (deferred tempDir w) = filter (\<lambda>(k, n). \<not> prefix q k) (filesys w) \<and>
   stderr (deferred tempDir w) = stderr w"
  by (simp add: deferred_def os_RemoveAll_def fs_call_def fs_RemoveAll_def log_call_def)

lemma deferred_warns:
  "fails w (RemoveAll tempDir) \<noteq> None \<Longrightarrow>
   filesys (deferred tempDir w) = filesys w \<and>
   stderr (deferred tempDir w) = stderr w @ [WarnDelete tempDir]"
  by (auto simp: deferred_def os_RemoveAll_def fs_call_def log_call_def say_def)

section \<open>Runs on the example worlds\<close>

text \<open>The runs below are computed by unfolding the definitions.\<close>

lemmas path_defs = Join_def Clean_def Base_def Rel_def splitPath_def path_string_def

lemmas fs_defs = node_at_def realpath_def lresolve_def fs_Stat_def fs_Lstat_def has_children_def
  fs_Mkdir_def fs_Symlink_def fs_Remove_def fs_OpenFile_def fs_Write_def fs_RemoveAll_def
  fs_ReadDir_def walk_below_def resolve.simps fs_MkdirAll.simps

lemmas os_defs = log_call_def say_def fs_call_def os_Mkdir_def os_MkdirAll_def os_Symlink_def
  os_Remove_def os_RemoveAll_def os_OpenFile_def printer_Fprint_def file_Close_def
  ioutil_TempDir_def os_Getwd_def build_Import_def exec_Run_def parser_ParseFile_def
  parsedNames_def parser_ParseDir_def package_named_def HasSuffix_def

lemmas call_defs = parsePackage_def fn_def filepath_Walk_def symlinkHierarchy_def
  instrumentFile_def instrumentPackage_def deferred_def afterTempDir_def instrumentAndTest_def

lemmas prog_defs = call_defs childEnv_def Getenv_def HasPrefix_def

lemmas example_defs = example_world_def example_package_def plain_tree_def linked_tree_def
  nothing_fails_def link_of_z_fails_def no_links_def print_fails_def tests_exit_def
  removal_fails_def is_Run_def

lemmas run_defs = example_defs path_defs fs_defs os_defs prog_defs fileFilter_sorted Let_def

text \<open>Nothing fails: the package is instrumented in the sandbox and the tests run.\<close>

lemma run_plain:
  "instrumentAndTest ''pkg'' (example_world plain_tree nothing_fails) =
     (Returns 0,
      (example_world plain_tree nothing_fails)
        \<lparr>calls :=
           [TempDir, Mkdir [''tmp'', ''gocov1'', ''src''], Getwd,
            Import ''pkg'', ParseDir [''gopath'', ''src'', ''pkg''],
            MkdirAll [''tmp'', ''gocov1'', ''src'', ''pkg''],
            Symlink [''gopath'', ''src'', ''pkg'', ''a.go'']
              [''tmp'', ''gocov1'', ''src'', ''pkg'', ''a.go''],
            Symlink [''gopath'', ''src'', ''pkg'', ''z.txt'']
              [''tmp'', ''gocov1'', ''src'', ''pkg'', ''z.txt''],
            InstrumentFile [''gopath'', ''src'', ''pkg'', ''a.go''],
            Remove [''tmp'', ''gocov1'', ''src'', ''pkg'', ''a.go''],
            OpenFile [''tmp'', ''gocov1'', ''src'', ''pkg'', ''a.go''],
            Fprint [''tmp'', ''gocov1'', ''src'', ''pkg'', ''a.go''],
            Close [''tmp'', ''gocov1'', ''src'', ''pkg'', ''a.go''],
            Run [''go'', ''test'', ''-v'', ''pkg'']
              [''HOME=/home'', ''GOCOVOUT=-'', ''GOPATH=/tmp/gocov1:/gopath''],
            RemoveAll [''tmp'', ''gocov1'']]\<rparr>)"
  by (simp add: run_defs split del: if_split)

text \<open>The sandbox as the test runner finds it, before the deferred removal.\<close>

lemma sandbox_plain:
  "filesys (snd (afterTempDir ''pkg'' [''tmp'', ''gocov1'']
       (snd (ioutil_TempDir (example_world plain_tree nothing_fails))))) =
     [([''tmp'', ''gocov1'', ''src'', ''pkg'', ''a.go''], FileNode ''package pkg; covered''),
      ([''tmp'', ''gocov1'', ''src'', ''pkg'', ''z.txt''],
       LinkNode [''gopath'', ''src'', ''pkg'', ''z.txt'']),
      ([''tmp'', ''gocov1'', ''src'', ''pkg''], DirNode),
      ([''tmp'', ''gocov1'', ''src''], DirNode),
      ([''tmp'', ''gocov1''], DirNode)] @ plain_tree"
  by (simp add: run_defs split del: if_split)

text \<open>The removal of the temporary root fails: a warning, and the same result.\<close>

lemma run_removal_fails:
  "instrumentAndTest ''pkg'' (example_world plain_tree removal_fails) =
     (Returns 0,
      (example_world plain_tree removal_fails)
        \<lparr>filesys :=
           [([''tmp'', ''gocov1'', ''src'', ''pkg'', ''a.go''], FileNode ''package pkg; covered''),
            ([''tmp'', ''gocov1'', ''src'', ''pkg'', ''z.txt''],
             LinkNode [''gopath'', ''src'', ''pkg'', ''z.txt'']),
            ([''tmp'', ''gocov1'', ''src'', ''pkg''], DirNode),
            ([''tmp'', ''gocov1'', ''src''], DirNode),
            ([''tmp'', ''gocov1''], DirNode)] @ plain_tree,
         calls :=
           [TempDir, Mkdir [''tmp'', ''gocov1'', ''src''], Getwd,
            Import ''pkg'', ParseDir [''gopath'', ''src'', ''pkg''],
            MkdirAll [''tmp'', ''gocov1'', ''src'', ''pkg''],
            Symlink [''gopath'', ''src'', ''pkg'', ''a.go'']
              [''tmp'', ''gocov1'', ''src'', ''pkg'', ''a.go''],
            Symlink [''gopath'', ''src'', ''pkg'', ''z.txt'']
              [''tmp'', ''gocov1'', ''src'', ''pkg'', ''z.txt''],
            InstrumentFile [''gopath'', ''src'', ''pkg'', ''a.go''],
            Remove [''tmp'', ''gocov1'', ''src'', ''pkg'', ''a.go''],
            OpenFile [''tmp'', ''gocov1'', ''src'', ''pkg'', ''a.go''],
            Fprint [''tmp'', ''gocov1'', ''src'', ''pkg'', ''a.go''],
            Close [''tmp'', ''gocov1'', ''src'', ''pkg'', ''a.go''],
            Run [''go'', ''test'', ''-v'', ''pkg'']
              [''HOME=/home'', ''GOCOVOUT=-'', ''GOPATH=/tmp/gocov1:/gopath''],
            RemoveAll [''tmp'', ''gocov1'']],
         stderr := [WarnDelete [''tmp'', ''gocov1'']]\<rparr>)"
  by (simp add: run_defs split del: if_split)

subsection \<open>Claim C2\<close>

lemma mirror_fails_on_z:
  "fst (symlinkHierarchy [''gopath'', ''src'', ''pkg''] [''tmp'', ''gocov1'', ''src'', ''pkg'']
         (snd (parsePackage ''pkg''
           (snd (os_Mkdir [''tmp'', ''gocov1'', ''src'']
             (snd (ioutil_TempDir (example_world plain_tree link_of_z_fails)))))))) =
     Some (IOError ''permission denied'')"
  by (simp add: run_defs split del: if_split)

lemma run_link_of_z_fails:
  "instrumentAndTest ''pkg'' (example_world plain_tree link_of_z_fails) =
     (Returns 0,
      (example_world plain_tree link_of_z_fails)
        \<lparr>calls :=
           [TempDir, Mkdir [''tmp'', ''gocov1'', ''src''], Getwd,
            Import ''pkg'', ParseDir [''gopath'', ''src'', ''pkg''],
            MkdirAll [''tmp'', ''gocov1'', ''src'', ''pkg''],
            Symlink [''gopath'', ''src'', ''pkg'', ''a.go'']
              [''tmp'', ''gocov1'', ''src'', ''pkg'', ''a.go''],
            Symlink [''gopath'', ''src'', ''pkg'', ''z.txt'']
              [''tmp'', ''gocov1'', ''src'', ''pkg'', ''z.txt''],
            InstrumentFile [''gopath'', ''src'', ''pkg'', ''a.go''],
            Remove [''tmp'', ''gocov1'', ''src'', ''pkg'', ''a.go''],
            OpenFile [''tmp'', ''gocov1'', ''src'', ''pkg'', ''a.go''],
            Fprint [''tmp'', ''gocov1'', ''src'', ''pkg'', ''a.go''],
            Close [''tmp'', ''gocov1'', ''src'', ''pkg'', ''a.go''],
            Run [''go'', ''test'', ''-v'', ''pkg'']
              [''HOME=/home'', ''GOCOVOUT=-'', ''GOPATH=/tmp/gocov1:/gopath''],
            RemoveAll [''tmp'', ''gocov1'']]\<rparr>)"
  by (simp add: run_defs split del: if_split)

text \<open>
  C2 (the code departs from the claim). The claim: when mirroring the source tree into the
  sandbox fails, the run aborts with that error; nothing is instrumented, no sandbox file is
  replaced, the test runner is not started, and the result is not zero. In the example the
  link for \<^verbatim>\<open>z.txt\<close> is refused, so \<^verbatim>\<open>symlinkHierarchy\<close> returns the error. \<^verbatim>\<open>instrumentPackage\<close>
  does not read it: after the failed \<^verbatim>\<open>Symlink\<close> call the log shows the instrumentation of
  \<^verbatim>\<open>a.go\<close>, the replacement of the sandbox file and the start of the test runner, and the run
  returns 0 without a message.
\<close>

theorem mirror_failure_is_dropped:
  "fst (symlinkHierarchy [''gopath'', ''src'', ''pkg''] [''tmp'', ''gocov1'', ''src'', ''pkg'']
         (snd (parsePackage ''pkg''
           (snd (os_Mkdir [''tmp'', ''gocov1'', ''src'']
             (snd (ioutil_TempDir (example_world plain_tree link_of_z_fails)))))))) =
     Some (IOError ''permission denied'') \<and>
   fst (instrumentAndTest ''pkg'' (example_world plain_tree link_of_z_fails)) = Returns 0 \<and>
   calls (snd (instrumentAndTest ''pkg'' (example_world plain_tree link_of_z_fails))) =
     [TempDir, Mkdir [''tmp'', ''gocov1'', ''src''], Getwd,
            Import ''pkg'', ParseDir [''gopath'', ''src'', ''pkg''],
            MkdirAll [''tmp'', ''gocov1'', ''src'', ''pkg''],
            Symlink [''gopath'', ''src'', ''pkg'', ''a.go'']
              [''tmp'', ''gocov1'', ''src'', ''pkg'', ''a.go''],
            Symlink [''gopath'', ''src'', ''pkg'', ''z.txt'']
              [''tmp'', ''gocov1'', ''src'', ''pkg'', ''z.txt''],
            InstrumentFile [''gopath'', ''src'', ''pkg'', ''a.go''],
            Remove [''tmp'', ''gocov1'', ''src'', ''pkg'', ''a.go''],
            OpenFile [''tmp'', ''gocov1'', ''src'', ''pkg'', ''a.go''],
            Fprint [''tmp'', ''gocov1'', ''src'', ''pkg'', ''a.go''],
            Close [''tmp'', ''gocov1'', ''src'', ''pkg'', ''a.go''],
            Run [''go'', ''test'', ''-v'', ''pkg'']
              [''HOME=/home'', ''GOCOVOUT=-'', ''GOPATH=/tmp/gocov1:/gopath''],
            RemoveAll [''tmp'', ''gocov1'']] \<and>
   stderr (snd (instrumentAndTest ''pkg'' (example_world plain_tree link_of_z_fails))) = []"
  by (simp add: mirror_fails_on_z run_link_of_z_fails) (simp add: example_world_def)

subsection \<open>Claim C3\<close>

lemma mirror_without_links:
  "symlinkHierarchy [''gopath'', ''src'', ''pkg''] [''tmp'', ''clone'']
     (example_world plain_tree no_links) =
     (Some (IOError ''operation not supported''),
      (example_world plain_tree no_links)
        \<lparr>filesys := ([''tmp'', ''clone''], DirNode) # plain_tree,
         calls :=
           [MkdirAll [''tmp'', ''clone''],
            Symlink [''gopath'', ''src'', ''pkg'', ''a.go''] [''tmp'', ''clone'', ''a.go'']]\<rparr>)"
  by (simp add: run_defs split del: if_split)

lemma run_no_links:
  "instrumentAndTest ''pkg'' (example_world plain_tree no_links) =
     (Returns 1,
      (example_world plain_tree no_links)
        \<lparr>calls :=
           [TempDir, Mkdir [''tmp'', ''gocov1'', ''src''], Getwd,
            Import ''pkg'', ParseDir [''gopath'', ''src'', ''pkg''],
            MkdirAll [''tmp'', ''gocov1'', ''src'', ''pkg''],
            Symlink [''gopath'', ''src'', ''pkg'', ''a.go'']
              [''tmp'', ''gocov1'', ''src'', ''pkg'', ''a.go''],
            InstrumentFile [''gopath'', ''src'', ''pkg'', ''a.go''],
            Remove [''tmp'', ''gocov1'', ''src'', ''pkg'', ''a.go''],
            RemoveAll [''tmp'', ''gocov1'']],
         stderr := [FailedInstrument ''pkg'' NotExist]\<rparr>)"
  by (simp add: run_defs split del: if_split)

text \<open>
  C3 (the code departs from the claim). The claim: when a link cannot be made, the file is
  copied, and mirroring still succeeds. On a file system that cannot link,
  \<^verbatim>\<open>symlinkHierarchy\<close> makes the target directory, asks for the first link, and returns the
  error of \<^verbatim>\<open>os.Symlink\<close>: nothing is copied, no file is made at the target, and the other
  entries are not visited. The whole run then fails with the code 1, on the removal of a
  sandbox file that was never made.
\<close>

theorem link_failure_fails_mirror:
  "fst (symlinkHierarchy [''gopath'', ''src'', ''pkg''] [''tmp'', ''clone'']
         (example_world plain_tree no_links)) = Some (IOError ''operation not supported'') \<and>
   node_at (filesys (snd (symlinkHierarchy [''gopath'', ''src'', ''pkg''] [''tmp'', ''clone'']
         (example_world plain_tree no_links)))) [''tmp'', ''clone'', ''a.go''] = None \<and>
   fst (instrumentAndTest ''pkg'' (example_world plain_tree no_links)) = Returns 1 \<and>
   stderr (snd (instrumentAndTest ''pkg'' (example_world plain_tree no_links))) =
     [FailedInstrument ''pkg'' NotExist]"
  by (simp add: mirror_without_links run_no_links) (simp add: node_at_def plain_tree_def)

subsection \<open>Claim C5\<close>

lemma sandbox_print_fails:
  "filesys (snd (afterTempDir ''pkg'' [''tmp'', ''gocov1'']
       (snd (ioutil_TempDir (example_world plain_tree print_fails))))) =
     [([''tmp'', ''gocov1'', ''src'', ''pkg'', ''a.go''], FileNode ''''),
      ([''tmp'', ''gocov1'', ''src'', ''pkg'', ''z.txt''],
       LinkNode [''gopath'', ''src'', ''pkg'', ''z.txt'']),
      ([''tmp'', ''gocov1'', ''src'', ''pkg''], DirNode),
      ([''tmp'', ''gocov1'', ''src''], DirNode),
      ([''tmp'', ''gocov1''], DirNode)] @ plain_tree"
  by (simp add: run_defs split del: if_split)

lemma run_print_fails:
  "instrumentAndTest ''pkg'' (example_world plain_tree print_fails) =
     (Returns 0,
      (example_world plain_tree print_fails)
        \<lparr>calls :=
           [TempDir, Mkdir [''tmp'', ''gocov1'', ''src''], Getwd,
            Import ''pkg'', ParseDir [''gopath'', ''src'', ''pkg''],
            MkdirAll [''tmp'', ''gocov1'', ''src'', ''pkg''],
            Symlink [''gopath'', ''src'', ''pkg'', ''a.go'']
              [''tmp'', ''gocov1'', ''src'', ''pkg'', ''a.go''],
            Symlink [''gopath'', ''src'', ''pkg'', ''z.txt'']
              [''tmp'', ''gocov1'', ''src'', ''pkg'', ''z.txt''],
            InstrumentFile [''gopath'', ''src'', ''pkg'', ''a.go''],
            Remove [''tmp'', ''gocov1'', ''src'', ''pkg'', ''a.go''],
            OpenFile [''tmp'', ''gocov1'', ''src'', ''pkg'', ''a.go''],
            Fprint [''tmp'', ''gocov1'', ''src'', ''pkg'', ''a.go''],
            Close [''tmp'', ''gocov1'', ''src'', ''pkg'', ''a.go''],
            Run [''go'', ''test'', ''-v'', ''pkg'']
              [''HOME=/home'', ''GOCOVOUT=-'', ''GOPATH=/tmp/gocov1:/gopath''],
            RemoveAll [''tmp'', ''gocov1'']]\<rparr>)"
  by (simp add: run_defs split del: if_split)

text \<open>
  C5 (the code departs from the claim). The claim: when writing the text of a transformed
  tree fails, \<^verbatim>\<open>instrumentPackage\<close> returns an error and the run aborts with a result that is
  not zero. The result of \<^verbatim>\<open>printer.Fprint\<close> is not looked at (line 138): in the example the
  write of \<^verbatim>\<open>a.go\<close> fails, the file in the sandbox stays empty, the test runner is started on
  it, and the run returns 0 without a message.
\<close>

theorem print_failure_is_ignored:
  "fails (example_world plain_tree print_fails)
     (Fprint [''tmp'', ''gocov1'', ''src'', ''pkg'', ''a.go'']) =
     Some (IOError ''no space left on device'') \<and>
   node_at (filesys (snd (afterTempDir ''pkg'' [''tmp'', ''gocov1'']
       (snd (ioutil_TempDir (example_world plain_tree print_fails))))))
     [''tmp'', ''gocov1'', ''src'', ''pkg'', ''a.go''] = Some (FileNode '''') \<and>
   fst (instrumentAndTest ''pkg'' (example_world plain_tree print_fails)) = Returns 0 \<and>
   calls (snd (instrumentAndTest ''pkg'' (example_world plain_tree print_fails))) =
     [TempDir, Mkdir [''tmp'', ''gocov1'', ''src''], Getwd,
            Import ''pkg'', ParseDir [''gopath'', ''src'', ''pkg''],
            MkdirAll [''tmp'', ''gocov1'', ''src'', ''pkg''],
            Symlink [''gopath'', ''src'', ''pkg'', ''a.go'']
              [''tmp'', ''gocov1'', ''src'', ''pkg'', ''a.go''],
            Symlink [''gopath'', ''src'', ''pkg'', ''z.txt'']
              [''tmp'', ''gocov1'', ''src'', ''pkg'', ''z.txt''],
            InstrumentFile [''gopath'', ''src'', ''pkg'', ''a.go''],
            Remove [''tmp'', ''gocov1'', ''src'', ''pkg'', ''a.go''],
            OpenFile [''tmp'', ''gocov1'', ''src'', ''pkg'', ''a.go''],
            Fprint [''tmp'', ''gocov1'', ''src'', ''pkg'', ''a.go''],
            Close [''tmp'', ''gocov1'', ''src'', ''pkg'', ''a.go''],
            Run [''go'', ''test'', ''-v'', ''pkg'']
              [''HOME=/home'', ''GOCOVOUT=-'', ''GOPATH=/tmp/gocov1:/gopath''],
            RemoveAll [''tmp'', ''gocov1'']] \<and>
   stderr (snd (instrumentAndTest ''pkg'' (example_world plain_tree print_fails))) = []"
  by (simp add: sandbox_print_fails run_print_fails)
     (simp add: example_world_def print_fails_def node_at_def)

subsection \<open>Claim C7\<close>

lemma run_linked_tree:
  "instrumentAndTest ''pkg'' (example_world linked_tree nothing_fails) =
     (Returns 0,
      (example_world linked_tree nothing_fails)
        \<lparr>filesys :=
           [([''real'', ''pkg'', ''a.go''], FileNode ''package pkg; covered''),
            ([''tmp''], DirNode), ([''gopath''], DirNode),
            ([''gopath'', ''src''], DirNode),
            ([''gopath'', ''src'', ''pkg''], LinkNode [''real'', ''pkg'']),
            ([''real''], DirNode), ([''real'', ''pkg''], DirNode)],
         calls :=
           [TempDir, Mkdir [''tmp'', ''gocov1'', ''src''], Getwd,
            Import ''pkg'', ParseDir [''gopath'', ''src'', ''pkg''],
            Symlink [''gopath'', ''src'', ''pkg''] [''tmp'', ''gocov1'', ''src'', ''pkg''],
            InstrumentFile [''gopath'', ''src'', ''pkg'', ''a.go''],
            Remove [''tmp'', ''gocov1'', ''src'', ''pkg'', ''a.go''],
            OpenFile [''tmp'', ''gocov1'', ''src'', ''pkg'', ''a.go''],
            Fprint [''real'', ''pkg'', ''a.go''],
            Close [''real'', ''pkg'', ''a.go''],
            Run [''go'', ''test'', ''-v'', ''pkg'']
              [''HOME=/home'', ''GOCOVOUT=-'', ''GOPATH=/tmp/gocov1:/gopath''],
            RemoveAll [''tmp'', ''gocov1'']]\<rparr>)"
  by (simp add: run_defs split del: if_split)

text \<open>
  C7 (the code departs from the claim). The claim: no file of the original package
  directory is modified by a run. In the example the package directory
  \<^verbatim>\<open>/gopath/src/pkg\<close> is a symbolic link to \<^verbatim>\<open>/real/pkg\<close>. \<^verbatim>\<open>filepath.Walk\<close> does not follow the
  link, so the callback links the sandbox directory \<^verbatim>\<open>/tmp/gocov1/src/pkg\<close> to the package
  directory instead of making it. \<^verbatim>\<open>os.Remove\<close> and \<^verbatim>\<open>os.OpenFile\<close> on
  \<^verbatim>\<open>/tmp/gocov1/src/pkg/a.go\<close> then pass through that link: the original \<^verbatim>\<open>a.go\<close> is removed
  and written anew with the instrumented text, and stays so after the run.
\<close>

theorem original_file_is_rewritten:
  "node_at (filesys (example_world linked_tree nothing_fails)) [''real'', ''pkg'', ''a.go''] =
     Some (FileNode ''package pkg'') \<and>
   fst (instrumentAndTest ''pkg'' (example_world linked_tree nothing_fails)) = Returns 0 \<and>
   node_at (filesys (snd (instrumentAndTest ''pkg'' (example_world linked_tree nothing_fails))))
     [''real'', ''pkg'', ''a.go''] = Some (FileNode ''package pkg; covered'')"
  by (simp add: run_linked_tree) (simp add: example_world_def linked_tree_def node_at_def)

text \<open>On the plain tree the original files are the same before and after the run.\<close>

lemma plain_tree_unchanged:
  "filesys (snd (instrumentAndTest ''pkg'' (example_world plain_tree nothing_fails))) =
   filesys (example_world plain_tree nothing_fails)"
  by (simp add: run_plain)

subsection \<open>Claim C6\<close>

text \<open>
  C6. Once \<^verbatim>\<open>ioutil.TempDir\<close> has made the temporary root, every run ends with the deferred
  removal: the result of the run is the one the lines after the creation gave (a code or a
  panic), whichever step failed, and the last call of the run is \<^verbatim>\<open>os.RemoveAll\<close> on the root.
  When the removal does not fail, no entry is left at or below the place \<open>q\<close> that the root
  names, and nothing is written to standard error; when it fails, the file system stays as
  it was and one warning is written, and the result is the same in both cases. A package
  that \<^verbatim>\<open>build.Import\<close> does not find gives the code 1 and an error message, and the removal
  runs as in every other case.
\<close>

theorem temp_root_removed_whatever_failed:
  assumes "ioutil_TempDir w = (Inr tempDir, w1)"
    and "afterTempDir packageName tempDir w1 = (rc, w2)"
  shows "fst (instrumentAndTest packageName w) = rc \<and>
         last (calls (snd (instrumentAndTest packageName w))) = RemoveAll tempDir \<and>
         (\<forall>q. fails w (RemoveAll tempDir) = None \<and> lresolve (filesys w2) tempDir = Some q \<longrightarrow>
              list_all (\<lambda>(k, n). \<not> prefix q k) (filesys (snd (instrumentAndTest packageName w))) \<and>
              stderr (snd (instrumentAndTest packageName w)) = stderr w2) \<and>
         (fails w (RemoveAll tempDir) \<noteq> None \<longrightarrow>
              filesys (snd (instrumentAndTest packageName w)) = filesys w2 \<and>
              stderr (snd (instrumentAndTest packageName w)) = stderr w2 @ [WarnDelete tempDir]) \<and>
         (\<forall>e. importer w packageName = Inl e \<longrightarrow>
              rc = Returns 1 \<and>
              (\<exists>e'. stderr w2 = stderr w @ [FailedSrcDir e'] \<or>
                    stderr w2 = stderr w @ [FailedInstrument packageName e']))"
proof -
  have res: "instrumentAndTest packageName w = (rc, deferred tempDir w2)"
    using assms by (simp add: instrumentAndTest_def)
  have q0: "quiet w w1" using quiet_ioutil_TempDir [of w] assms(1) by simp
  have f2: "fails w2 = fails w"
    using afterTempDir_fails [OF assms(2)] quiet_runs(2) [OF q0] by simp
  show ?thesis unfolding res fst_conv snd_conv
  proof (intro conjI allI impI)
    show "rc = rc" ..
    show "last (calls (deferred tempDir w2)) = RemoveAll tempDir"
      by (simp add: deferred_fields)
  next
    fix q assume "fails w (RemoveAll tempDir) = None \<and> lresolve (filesys w2) tempDir = Some q"
    then have h: "fails w2 (RemoveAll tempDir) = None" "lresolve (filesys w2) tempDir = Some q"
      by (simp_all add: f2)
    from deferred_removes [OF h]
    show "list_all (\<lambda>(k, n). \<not> prefix q k) (filesys (deferred tempDir w2))"
      and "stderr (deferred tempDir w2) = stderr w2"
      by (simp_all add: list_all_iff)
  next
    assume "fails w (RemoveAll tempDir) \<noteq> None"
    then have "fails w2 (RemoveAll tempDir) \<noteq> None" by (simp add: f2)
    from deferred_warns [OF this]
    show "filesys (deferred tempDir w2) = filesys w2"
      and "stderr (deferred tempDir w2) = stderr w2 @ [WarnDelete tempDir]"
      by simp_all
  next
    fix e assume "importer w packageName = Inl e"
    then have "importer w1 packageName = Inl e" using quiet_runs(3) [OF q0] by simp
    from afterTempDir_unresolved [OF assms(2) this]
    show "rc = Returns 1"
      and "\<exists>e'. stderr w2 = stderr w @ [FailedSrcDir e'] \<or>
                stderr w2 = stderr w @ [FailedInstrument packageName e']"
      using quiet_runs(4) [OF q0] by simp_all
  qed
qed

text \<open>The run on a package that does not exist.\<close>

lemma tempdir_plain:
  "ioutil_TempDir (example_world plain_tree nothing_fails) =
     (Inr [''tmp'', ''gocov1''],
      (example_world plain_tree nothing_fails)
        \<lparr>filesys := ([''tmp'', ''gocov1''], DirNode) # plain_tree,
         calls := [TempDir]\<rparr>)"
  by (simp add: run_defs split del: if_split)

lemma after_unresolved:
  "afterTempDir ''nopkg'' [''tmp'', ''gocov1'']
     ((example_world plain_tree nothing_fails)
        \<lparr>filesys := ([''tmp'', ''gocov1''], DirNode) # plain_tree,
         calls := [TempDir]\<rparr>) =
     (Returns 1,
      (example_world plain_tree nothing_fails)
        \<lparr>filesys := ([''tmp'', ''gocov1'', ''src''], DirNode) #
                      ([''tmp'', ''gocov1''], DirNode) # plain_tree,
         calls := [TempDir, Mkdir [''tmp'', ''gocov1'', ''src''], Getwd, Import ''nopkg''],
         stderr := [FailedInstrument ''nopkg'' (IOError ''cannot find package'')]\<rparr>)"
  by (simp add: run_defs split del: if_split)

theorem temp_root_removed_whatever_failed_witness:
  "ioutil_TempDir (example_world plain_tree nothing_fails) =
     (Inr [''tmp'', ''gocov1''],
      (example_world plain_tree nothing_fails)
        \<lparr>filesys := ([''tmp'', ''gocov1''], DirNode) # plain_tree,
         calls := [TempDir]\<rparr>) \<and>
   fst (afterTempDir ''nopkg'' [''tmp'', ''gocov1'']
     ((example_world plain_tree nothing_fails)
        \<lparr>filesys := ([''tmp'', ''gocov1''], DirNode) # plain_tree,
         calls := [TempDir]\<rparr>)) = Returns 1 \<and>
   fst (instrumentAndTest ''nopkg'' (example_world plain_tree nothing_fails)) = Returns 1 \<and>
   last (calls (snd (instrumentAndTest ''nopkg'' (example_world plain_tree nothing_fails)))) =
     RemoveAll [''tmp'', ''gocov1''] \<and>
   list_all (\<lambda>(k, n). \<not> prefix [''tmp'', ''gocov1''] k)
     (filesys (snd (instrumentAndTest ''nopkg'' (example_world plain_tree nothing_fails)))) \<and>
   stderr (snd (instrumentAndTest ''nopkg'' (example_world plain_tree nothing_fails))) =
     [FailedInstrument ''nopkg'' (IOError ''cannot find package'')]"
proof -
  let ?w = "example_world plain_tree nothing_fails"
  let ?w2 = "?w\<lparr>filesys := ([''tmp'', ''gocov1'', ''src''], DirNode) #
                            ([''tmp'', ''gocov1''], DirNode) # plain_tree,
               calls := [TempDir, Mkdir [''tmp'', ''gocov1'', ''src''], Getwd, Import ''nopkg''],
               stderr := [FailedInstrument ''nopkg'' (IOError ''cannot find package'')]\<rparr>"
  note th = temp_root_removed_whatever_failed [OF tempdir_plain after_unresolved]
  have ok: "fails ?w (RemoveAll [''tmp'', ''gocov1'']) = None"
    by (simp add: example_world_def nothing_fails_def)
  have at: "lresolve (filesys ?w2) [''tmp'', ''gocov1''] = Some [''tmp'', ''gocov1'']"
    by (simp add: example_defs fs_defs)
  from th ok at
  have "list_all (\<lambda>(k, n). \<not> prefix [''tmp'', ''gocov1''] k)
          (filesys (snd (instrumentAndTest ''nopkg'' ?w)))"
    and "stderr (snd (instrumentAndTest ''nopkg'' ?w)) = stderr ?w2"
    by blast+
  moreover from th have "fst (instrumentAndTest ''nopkg'' ?w) = Returns 1"
    and "last (calls (snd (instrumentAndTest ''nopkg'' ?w))) = RemoveAll [''tmp'', ''gocov1'']"
    by blast+
  ultimately show ?thesis
    using tempdir_plain after_unresolved by simp
qed

subsection \<open>Claim C8\<close>

text \<open>
  When nothing fails, the test runner is started once, with the child environment composed
  from the process environment.
\<close>

lemma run_hands_childEnv:
  "filter is_Run (calls (snd (instrumentAndTest ''pkg'' (world_with_env env)))) =
     [Run [''go'', ''test'', ''-v'', ''pkg''] (childEnv env ''/tmp/gocov1'' CHR '':'')]"
  by (simp add: world_with_env_def example_defs path_defs fs_defs os_defs call_defs
      HasPrefix_def fileFilter_sorted Let_def split del: if_split)

text \<open>
  C8 (the code departs from the claim). The claim: the child environment handed to the test
  runner always has \<^verbatim>\<open>GOCOVOUT\<close> set to \<^verbatim>\<open>-\<close>, and the other entries are carried through. The
  first composition, \<^verbatim>\<open>putenv(env, "GOCOVOUT", "-")\<close>, looks for \<^verbatim>\<open>"GOPATH="\<close>: an entry for
  \<^verbatim>\<open>GOCOVOUT\<close> that the process environment holds is not replaced, and the runner is handed a
  list with two entries for \<^verbatim>\<open>GOCOVOUT\<close>. With the process environment
  \<^verbatim>\<open>["GOCOVOUT=x", "GOPATH=/gopath"]\<close> the old entry comes first, and a reader that takes the
  first entry for a key (\<^verbatim>\<open>Getenv\<close> above) reads \<^verbatim>\<open>x\<close>; with
  \<^verbatim>\<open>["GOPATH=/gopath", "GOCOVOUT=x"]\<close> the old entry comes last, and a reader that takes the
  last entry for a key reads \<^verbatim>\<open>x\<close>. Composed with the composer of the specification, both
  lists hold the one entry \<^verbatim>\<open>GOCOVOUT=-\<close>.
\<close>

theorem old_GOCOVOUT_is_kept:
  "childEnv [''GOCOVOUT=x'', ''GOPATH=/gopath''] ''/tmp/gocov1'' CHR '':'' =
     [''GOCOVOUT=x'', ''GOCOVOUT=-'', ''GOPATH=/tmp/gocov1:/gopath''] \<and>
   Getenv (childEnv [''GOCOVOUT=x'', ''GOPATH=/gopath''] ''/tmp/gocov1'' CHR '':'') ''GOCOVOUT'' =
     ''x'' \<and>
   filter is_Run
     (calls (snd (instrumentAndTest ''pkg'' (world_with_env [''GOCOVOUT=x'', ''GOPATH=/gopath''])))) =
     [Run [''go'', ''test'', ''-v'', ''pkg'']
        [''GOCOVOUT=x'', ''GOCOVOUT=-'', ''GOPATH=/tmp/gocov1:/gopath'']] \<and>
   childEnv [''GOPATH=/gopath'', ''GOCOVOUT=x''] ''/tmp/gocov1'' CHR '':'' =
     [''GOCOVOUT=-'', ''GOCOVOUT=x'', ''GOPATH=/tmp/gocov1:/gopath''] \<and>
   last (entries_for ''GOCOVOUT''
     (childEnv [''GOPATH=/gopath'', ''GOCOVOUT=x''] ''/tmp/gocov1'' CHR '':'')) = ''GOCOVOUT=x'' \<and>
   filter is_Run
     (calls (snd (instrumentAndTest ''pkg'' (world_with_env [''GOPATH=/gopath'', ''GOCOVOUT=x''])))) =
     [Run [''go'', ''test'', ''-v'', ''pkg'']
        [''GOCOVOUT=-'', ''GOCOVOUT=x'', ''GOPATH=/tmp/gocov1:/gopath'']] \<and>
   childEnv_spec [''GOCOVOUT=x'', ''GOPATH=/gopath''] ''/tmp/gocov1'' CHR '':'' =
     [''GOCOVOUT=-'', ''GOPATH=/tmp/gocov1:/gopath''] \<and>
   childEnv_spec [''GOPATH=/gopath'', ''GOCOVOUT=x''] ''/tmp/gocov1'' CHR '':'' =
     [''GOPATH=/tmp/gocov1:/gopath'', ''GOCOVOUT=-'']"
proof -
  have a: "childEnv [''GOCOVOUT=x'', ''GOPATH=/gopath''] ''/tmp/gocov1'' CHR '':'' =
     [''GOCOVOUT=x'', ''GOCOVOUT=-'', ''GOPATH=/tmp/gocov1:/gopath'']"
    by (simp add: childEnv_def Getenv_def HasPrefix_def)
  have b: "childEnv [''GOPATH=/gopath'', ''GOCOVOUT=x''] ''/tmp/gocov1'' CHR '':'' =
     [''GOCOVOUT=-'', ''GOCOVOUT=x'', ''GOPATH=/tmp/gocov1:/gopath'']"
    by (simp add: childEnv_def Getenv_def HasPrefix_def)
  have c: "Getenv [''GOCOVOUT=x'', ''GOCOVOUT=-'', ''GOPATH=/tmp/gocov1:/gopath''] ''GOCOVOUT'' = ''x''"
    by (simp add: Getenv_def HasPrefix_def)
  have d: "last (entries_for ''GOCOVOUT''
      [''GOCOVOUT=-'', ''GOCOVOUT=x'', ''GOPATH=/tmp/gocov1:/gopath'']) = ''GOCOVOUT=x''"
    by (simp add: entries_for_def HasPrefix_def)
  have e: "childEnv_spec [''GOCOVOUT=x'', ''GOPATH=/gopath''] ''/tmp/gocov1'' CHR '':'' =
     [''GOCOVOUT=-'', ''GOPATH=/tmp/gocov1:/gopath'']"
    by (simp add: childEnv_spec_def Getenv_def HasPrefix_def)
  have f: "childEnv_spec [''GOPATH=/gopath'', ''GOCOVOUT=x''] ''/tmp/gocov1'' CHR '':'' =
     [''GOPATH=/tmp/gocov1:/gopath'', ''GOCOVOUT=-'']"
    by (simp add: childEnv_spec_def Getenv_def HasPrefix_def)
  show ?thesis
    unfolding run_hands_childEnv a b c d e f by simp
qed
subsection \<open>Claim C9\<close>

lemma run_tests_exit:
  "instrumentAndTest ''pkg'' (example_world plain_tree (tests_exit n)) =
     (Returns 1,
      (example_world plain_tree (tests_exit n))
        \<lparr>calls :=
           [TempDir, Mkdir [''tmp'', ''gocov1'', ''src''], Getwd,
            Import ''pkg'', ParseDir [''gopath'', ''src'', ''pkg''],
            MkdirAll [''tmp'', ''gocov1'', ''src'', ''pkg''],
            Symlink [''gopath'', ''src'', ''pkg'', ''a.go'']
              [''tmp'', ''gocov1'', ''src'', ''pkg'', ''a.go''],
            Symlink [''gopath'', ''src'', ''pkg'', ''z.txt'']
              [''tmp'', ''gocov1'', ''src'', ''pkg'', ''z.txt''],
            InstrumentFile [''gopath'', ''src'', ''pkg'', ''a.go''],
            Remove [''tmp'', ''gocov1'', ''src'', ''pkg'', ''a.go''],
            OpenFile [''tmp'', ''gocov1'', ''src'', ''pkg'', ''a.go''],
            Fprint [''tmp'', ''gocov1'', ''src'', ''pkg'', ''a.go''],
            Close [''tmp'', ''gocov1'', ''src'', ''pkg'', ''a.go''],
            Run [''go'', ''test'', ''-v'', ''pkg'']
              [''HOME=/home'', ''GOCOVOUT=-'', ''GOPATH=/tmp/gocov1:/gopath''],
            RemoveAll [''tmp'', ''gocov1'']],
         stderr := [GoTestFailed (ExitStatus n)]\<rparr>)"
  by (simp add: run_defs split del: if_split)

text \<open>
  C9 (counterexample). The claim: when the child fails, the result code corresponds one to
  one to the exit status of the child. A test runner that exits with the status 2 and one
  that exits with the status 3 both give the result code 1.
\<close>

theorem exit_status_is_not_kept:
  "fails (example_world plain_tree (tests_exit 2))
     (Run [''go'', ''test'', ''-v'', ''pkg'']
        [''HOME=/home'', ''GOCOVOUT=-'', ''GOPATH=/tmp/gocov1:/gopath'']) = Some (ExitStatus 2) \<and>
   fails (example_world plain_tree (tests_exit 3))
     (Run [''go'', ''test'', ''-v'', ''pkg'']
        [''HOME=/home'', ''GOCOVOUT=-'', ''GOPATH=/tmp/gocov1:/gopath'']) = Some (ExitStatus 3) \<and>
   fst (instrumentAndTest ''pkg'' (example_world plain_tree (tests_exit 2))) = Returns 1 \<and>
   fst (instrumentAndTest ''pkg'' (example_world plain_tree (tests_exit 3))) = Returns 1"
  by (simp add: run_tests_exit) (simp add: example_world_def tests_exit_def is_Run_def)

text \<open>
  C9 (amended). For a run that starts with an empty log: the run returns 0 exactly when the
  test runner was started and did not fail; and whenever the test runner was started and
  failed, the run returns the code 1, whatever the exit status of the child was.
\<close>

theorem result_reflects_runner:
  assumes "calls w = []"
  shows "(fst (instrumentAndTest packageName w) = Returns 0) =
           (\<exists>c \<in> set (calls (snd (instrumentAndTest packageName w))). is_Run c \<and> fails w c = None) \<and>
         (\<forall>c \<in> set (calls (snd (instrumentAndTest packageName w))).
            is_Run c \<and> fails w c \<noteq> None \<longrightarrow> fst (instrumentAndTest packageName w) = Returns 1)"
proof -
  obtain r0 w1 where t: "ioutil_TempDir w = (r0, w1)" by (cases "ioutil_TempDir w")
  have q0: "quiet w w1" using quiet_ioutil_TempDir [of w] t by simp
  have r1: "filter is_Run (calls w1) = []" using quiet_runs(1) [OF q0] assms by simp
  have runs: "(x \<in> set cs \<and> is_Run x) = (x \<in> set (filter is_Run cs))" for x cs
    by auto
  show ?thesis
  proof (cases r0)
    case (Inl e)
    with t have res: "instrumentAndTest packageName w = (Returns 1, say (FailedTempDir e) w1)"
      by (simp add: instrumentAndTest_def)
    have "\<not> (x \<in> set (calls w1) \<and> is_Run x)" for x unfolding runs r1 by simp
    then have "\<forall>x\<in>set (calls (say (FailedTempDir e) w1)). \<not> is_Run x" by simp
    then show ?thesis unfolding res fst_conv snd_conv by simp
  next
    case (Inr tempDir)
    obtain rc w2 where b: "afterTempDir packageName tempDir w1 = (rc, w2)"
      by (cases "afterTempDir packageName tempDir w1")
    from t Inr b have res: "instrumentAndTest packageName w = (rc, deferred tempDir w2)"
      by (simp add: instrumentAndTest_def)
    have f1: "fails w1 = fails w" using quiet_runs(2) [OF q0] .
    have fin: "(x \<in> set (calls (deferred tempDir w2)) \<and> is_Run x) =
               (x \<in> set (filter is_Run (calls w2)))" for x
      by (auto simp: deferred_fields)
    have "(filter is_Run (calls w2) = [] \<and> rc \<noteq> Returns 0) \<or>
          (\<exists>c. filter is_Run (calls w2) = [c] \<and> is_Run c \<and>
               rc = (if fails w c = None then Returns 0 else Returns 1))"
      using afterTempDir_runs [OF b] unfolding r1 f1 by simp
    then consider "filter is_Run (calls w2) = []" "rc \<noteq> Returns 0"
      | c where "filter is_Run (calls w2) = [c]" "is_Run c"
          "rc = (if fails w c = None then Returns 0 else Returns 1)"
      by blast
    then show ?thesis
    proof cases
      case 1
      with fin have "\<not> (x \<in> set (calls (deferred tempDir w2)) \<and> is_Run x)" for x by simp
      then have "\<forall>x\<in>set (calls (deferred tempDir w2)). \<not> is_Run x" by blast
      with 1 show ?thesis unfolding res fst_conv snd_conv by simp
    next
      case 2
      with fin have only: "(x \<in> set (calls (deferred tempDir w2)) \<and> is_Run x) = (x = c)" for x
        by simp
      have one: "x = c" if "x \<in> set (calls (deferred tempDir w2))" "is_Run x" for x
        using only [of x] that by blast
      have c_in: "c \<in> set (calls (deferred tempDir w2))"
        using only [of c] by blast
      show ?thesis unfolding res fst_conv snd_conv
      proof (intro conjI ballI impI)
        show "(rc = Returns 0) = (\<exists>c\<in>set (calls (deferred tempDir w2)). is_Run c \<and> fails w c = None)"
        proof (cases "fails w c = None")
          case True
          with 2(3) have "rc = Returns 0" by simp
          with c_in 2(2) True show ?thesis by blast
        next
          case False
          with 2(3) have "rc = Returns 1" by simp
          moreover have "\<not> (\<exists>x\<in>set (calls (deferred tempDir w2)). is_Run x \<and> fails w x = None)"
          proof
            assume "\<exists>x\<in>set (calls (deferred tempDir w2)). is_Run x \<and> fails w x = None"
            then obtain x where x: "x \<in> set (calls (deferred tempDir w2))" "is_Run x" "fails w x = None"
              by blast
            from one [OF x(1,2)] x(3) False show False by simp
          qed
          ultimately show ?thesis by simp
        qed
      next
        fix x assume "x \<in> set (calls (deferred tempDir w2))" "is_Run x \<and> fails w x \<noteq> None"
        then have x: "x \<in> set (calls (deferred tempDir w2))" "is_Run x" "fails w x \<noteq> None"
          by simp_all
        from one [OF x(1,2)] x(3) have "fails w c \<noteq> None" by simp
        with 2(3) show "rc = Returns 1" by simp
      qed
    qed
  qed
qed

theorem result_reflects_runner_witness:
  "calls (example_world plain_tree nothing_fails) = [] \<and>
   fst (instrumentAndTest ''pkg'' (example_world plain_tree nothing_fails)) = Returns 0 \<and>
   (\<exists>c \<in> set (calls (snd (instrumentAndTest ''pkg'' (example_world plain_tree nothing_fails)))).
      is_Run c \<and> fails (example_world plain_tree nothing_fails) c = None)"
proof -
  have h: "calls (example_world plain_tree nothing_fails) = []"
    by (simp add: example_world_def)
  have r: "fst (instrumentAndTest ''pkg'' (example_world plain_tree nothing_fails)) = Returns 0"
    by (simp add: run_plain)
  from result_reflects_runner [OF h, of "''pkg''"] r h show ?thesis by blast
qed

subsection \<open>Claim C10\<close>

text \<open>
  C10. The filter that \<^verbatim>\<open>parsePackage\<close> hands to \<^verbatim>\<open>parser.ParseDir\<close> accepts a file name exactly
  when the name is in the member list \<^verbatim>\<open>p.GoFiles\<close>: the list is sorted first, and the binary
  search finds the name when it is there. So the names that are parsed among those of the
  directory are the members with the ending \<^verbatim>\<open>.go\<close>: a name outside the member list is not
  parsed, and a member that is present is.
\<close>

theorem filter_accepts_members_only:
  "fileFilter (sort GoFiles) name = (name \<in> set GoFiles) \<and>
   parsedNames (fileFilter (sort GoFiles)) names =
     filter (\<lambda>name. HasSuffix name ''.go'' \<and> name \<in> set GoFiles) names"
  by (simp add: fileFilter_sorted parsedNames_def)

text \<open>The binary search itself, on a sorted list of three names.\<close>

lemma fileFilter_example:
  "fileFilter [''a.go'', ''b.go'', ''c.go''] ''c.go''"
  "\<not> fileFilter [''a.go'', ''b.go'', ''c.go''] ''b_test.go''"
  by (simp_all add: fileFilter_def SearchStrings_def Search_def
      Search_loop_done Search_loop_left Search_loop_right)

text \<open>
  The files that \<^verbatim>\<open>parsePackage\<close> returns, which are the ones \<^verbatim>\<open>instrumentPackage\<close> rewrites, are
  members of the package directory.
\<close>

lemma collect_members: "x \<in> set (fst (collect rs)) \<Longrightarrow> Inr x \<in> set rs"
  by (induction rs rule: collect.induct) auto

lemma parser_ParseFile_name:
  "parser_ParseFile filename w = Inr (filename', n, src) \<Longrightarrow> filename' = filename"
  by (auto simp: parser_ParseFile_def split: option.splits node.splits sum.splits)

lemma parser_ParseDir_names:
  assumes "(filename, n, src) \<in> set (fst (parser_ParseDir dir flt w))"
  shows "\<exists>name. filename = Join [dir, [name]] \<and> HasSuffix name ''.go'' \<and> flt name"
proof -
  from assms obtain q where
    "(filename, n, src) \<in> set (fst (collect (map (\<lambda>name. parser_ParseFile (Join [dir, [name]]) w)
        (parsedNames flt (fs_ReadDir (filesys w) q)))))"
    by (auto simp: parser_ParseDir_def Let_def split: option.splits if_splits)
  then have "Inr (filename, n, src) \<in> set (map (\<lambda>name. parser_ParseFile (Join [dir, [name]]) w)
        (parsedNames flt (fs_ReadDir (filesys w) q)))"
    by (rule collect_members)
  then obtain name where name: "name \<in> set (parsedNames flt (fs_ReadDir (filesys w) q))"
    and r: "parser_ParseFile (Join [dir, [name]]) w = Inr (filename, n, src)"
    by auto
  from r have "filename = Join [dir, [name]]" by (rule parser_ParseFile_name)
  with name show ?thesis by (auto simp: parsedNames_def)
qed

lemma parsePackage_files_are_members:
  assumes "parsePackage path w = (Inr (p, Some files), w')"
    and "(filename, f) \<in> set files"
  shows "\<exists>name \<in> set (pkgGoFiles p). filename = Join [pkgDir p, [name]]"
proof -
  obtain r1 w1 where a: "os_Getwd w = (r1, w1)" by (cases "os_Getwd w")
  from assms(1) a obtain cwd where cwd: "r1 = Inr cwd"
    by (cases r1) (auto simp: parsePackage_def)
  obtain r2 w2 where b: "build_Import path cwd w1 = (r2, w2)" by (cases "build_Import path cwd w1")
  from assms(1) a cwd b obtain p0 where p0: "r2 = Inr p0"
    by (cases r2) (auto simp: parsePackage_def)
  define q where "q = p0\<lparr>pkgGoFiles := sort (pkgGoFiles p0)\<rparr>"
  obtain pkgs r3 w3 where c: "parser_ParseDir (pkgDir q) (fileFilter (pkgGoFiles q)) w2 = (pkgs, r3, w3)"
    by (cases "parser_ParseDir (pkgDir q) (fileFilter (pkgGoFiles q)) w2") auto
  from assms(1) a cwd b p0 c have res: "p = q" "package_named (pkgName q) pkgs = Some files"
    by (cases r3; simp add: parsePackage_def Let_def q_def)+
  from res(2) assms(2) obtain n where "(filename, n, f) \<in> set pkgs"
    by (auto simp: package_named_def Let_def split: if_splits)
  with c have "(filename, n, f) \<in> set (fst (parser_ParseDir (pkgDir q) (fileFilter (pkgGoFiles q)) w2))"
    by simp
  from parser_ParseDir_names [OF this] obtain name where
    name: "filename = Join [pkgDir q, [name]]" "fileFilter (pkgGoFiles q) name" by blast
  have "sorted (pkgGoFiles q)" by (simp add: q_def)
  with name(2) have "name \<in> set (pkgGoFiles q)" by (simp add: fileFilter_sorted)
  with name(1) res(1) show ?thesis by blast
qed

end
